theory Spec2Isabelle
  imports Main "HOL-Library.AList"
begin

section \<open>repo-sync: reference comparison and push gating\<close>

text \<open>
  The development embeds the TypeScript sources \<^verbatim>\<open>types.ts\<close>, \<^verbatim>\<open>git.ts\<close> (the version with
  \<^verbatim>\<open>getDefaultBranch\<close> and \<^verbatim>\<open>addSourceNotice\<close>, which \<^verbatim>\<open>sync.ts\<close> imports), \<^verbatim>\<open>config.ts\<close>
  (the version with \<^verbatim>\<open>ensureCacheDir\<close>) and \<^verbatim>\<open>sync.ts\<close>.

  JavaScript strings are modelled as \<^typ>\<open>string\<close>; a \<^typ>\<open>char\<close> stands for one byte of the
  UTF-8 text that the child processes and the files exchange. \<^verbatim>\<open>null\<close> and \<^verbatim>\<open>undefined\<close> are
  \<^term>\<open>None\<close>. A string is falsy exactly when it is empty. Output written with
  \<^verbatim>\<open>console.log\<close> is not part of the model.
\<close>

subsection \<open>Strings of the JavaScript runtime\<close>

text \<open>White space that \<^verbatim>\<open>String.prototype.trim\<close> and \<^verbatim>\<open>parseInt\<close> strip (the ASCII part:
  tab, line feed, vertical tab, form feed, carriage return, space).\<close>

definition isSpace :: "char \<Rightarrow> bool" where
  "isSpace c = (c \<in> set [CHR 0x09, CHR 0x0A, CHR 0x0B, CHR 0x0C, CHR 0x0D, CHR 0x20])"

definition trim :: "string \<Rightarrow> string" where
  "trim s = rev (dropWhile isSpace (rev (dropWhile isSpace s)))"

definition isDigit :: "char \<Rightarrow> bool" where
  "isDigit c = (48 \<le> (of_char c :: nat) \<and> (of_char c :: nat) \<le> 57)"

definition digitVal :: "char \<Rightarrow> int" where
  "digitVal c = int (of_char c) - 48"

text \<open>
  A JavaScript number as \<^verbatim>\<open>parseInt\<close> produces it: an integer that a double-precision
  float holds, or an infinity. \<^verbatim>\<open>NaN\<close> is the absent result of \<open>parseInt10\<close> below. Negative
  zero is not told from zero; both are falsy, and the one use of the result,
  \<^verbatim>\<open>parseInt(...) || 0\<close>, maps both to zero.
\<close>

datatype number = Num int | PosInfinity | NegInfinity

text \<open>
  The double nearest to a natural number, ties to the even significand: below \<open>2^53\<close> the
  number itself; above, the bits beyond the leading 53 are rounded away. \<^term>\<open>None\<close> stands
  for a result beyond the largest double, which is an infinity.
\<close>

fun bitLength :: "nat \<Rightarrow> nat" where
  "bitLength n = (if n = 0 then 0 else Suc (bitLength (n div 2)))"

declare bitLength.simps [simp del]

definition nearestDouble :: "nat \<Rightarrow> nat option" where
  "nearestDouble n =
     (if n < 2 ^ 53 then Some n
      else
        (let e = bitLength n - 53;
             q = n div 2 ^ e;
             r = n mod 2 ^ e;
             up = (2 ^ e < 2 * r \<or> (2 * r = 2 ^ e \<and> odd q));
             v = (if up then q + 1 else q) * 2 ^ e
         in if v < 2 ^ 1024 then Some v else None))"

text \<open>\<^verbatim>\<open>Number.parseInt(s, 10)\<close>: leading white space is skipped, one sign is read, then
  the longest run of decimal digits; no digit gives \<^verbatim>\<open>NaN\<close>, here \<^term>\<open>None\<close>. The value is
  the number nearest to the signed integer that the digits denote (the language standard
  lets an engine approximate beyond 20 significant digits; V8, the engine of Node.js,
  rounds the digits correctly).\<close>

definition digitsValue :: "string \<Rightarrow> int" where
  "digitsValue ds = foldl (\<lambda>a c. 10 * a + digitVal c) 0 ds"

definition parseInt10 :: "string \<Rightarrow> number option" where
  "parseInt10 s =
     (let t = dropWhile isSpace s;
          neg = (t \<noteq> [] \<and> hd t = CHR ''-'');
          u = (if t \<noteq> [] \<and> (hd t = CHR ''-'' \<or> hd t = CHR ''+'') then tl t else t);
          z = takeWhile isDigit u
      in if z = [] then None
         else Some (case nearestDouble (nat (digitsValue z)) of
                      None \<Rightarrow> if neg then NegInfinity else PosInfinity
                    | Some v \<Rightarrow> Num (if neg then - int v else int v)))"

text \<open>\<^verbatim>\<open>s.split(sep)\<close> for a one-character separator: the pieces between the separators,
  never an empty array.\<close>

fun split_on :: "char \<Rightarrow> string \<Rightarrow> string list" where
  "split_on c [] = [[]]"
| "split_on c (x # xs) =
     (if x = c then [] # split_on c xs
      else (x # hd (split_on c xs)) # tl (split_on c xs))"

text \<open>Array element access \<^verbatim>\<open>a[i]\<close>, \<^verbatim>\<open>undefined\<close> out of range.\<close>

definition at_index :: "'a list \<Rightarrow> nat \<Rightarrow> 'a option" where
  "at_index xs i = (if i < length xs then Some (xs ! i) else None)"

text \<open>Decimal digits of a natural number, as a template literal prints a number.\<close>

fun decimal :: "nat \<Rightarrow> string" where
  "decimal n =
     (if n < 10 then [char_of (48 + n)]
      else decimal (n div 10) @ [char_of (48 + n mod 10)])"

declare decimal.simps [simp del]

subsection \<open>The runtime environment\<close>

text \<open>
  What \<^verbatim>\<open>execSync\<close> does with a command: it returns the captured standard output
  (\<^verbatim>\<open>null\<close> when the child inherits the streams), or it throws an error that carries the
  exit status (none when the child did not exit by itself), the captured standard error
  and a message.
\<close>

datatype proc =
  Returned "string option"
| Threw "nat option" "string option" string

text \<open>
  The calls into Node.js, over an abstract state \<open>'s\<close> of the file system, the
  repositories and the remotes. \<open>execSync command cwd silent\<close> runs a child process;
  \<open>silent\<close> stands for \<^verbatim>\<open>stdio: "pipe"\<close>, its negation for \<^verbatim>\<open>"inherit"\<close>.
  \<open>statMtime\<close> is \<^verbatim>\<open>statSync(path).mtime\<close> in milliseconds, \<open>dateNow\<close> is \<^verbatim>\<open>Date.now()\<close>,
  \<open>pathJoin\<close> is \<^verbatim>\<open>path.join\<close> of two segments.

  \<^verbatim>\<open>mkdirSync\<close>, \<^verbatim>\<open>writeFileSync\<close>, \<^verbatim>\<open>readFileSync\<close> and \<^verbatim>\<open>rmSync\<close> may throw, as
  \<^verbatim>\<open>readFileSync\<close> does with \<^verbatim>\<open>EISDIR\<close> on a directory. The three that write give the
  exception they throw, if any, and the state they leave; \<^verbatim>\<open>readFileSync\<close> gives the
  exception or the text. \<^verbatim>\<open>existsSync\<close> never throws. \<^verbatim>\<open>statSync\<close> is only called on a path
  that \<^verbatim>\<open>existsSync\<close> has found in the same state, where it returns.
\<close>

datatype exn = FsError string

record 's node =
  execSync :: "string \<Rightarrow> string option \<Rightarrow> bool \<Rightarrow> 's \<Rightarrow> proc \<times> 's"
  existsSync :: "string \<Rightarrow> 's \<Rightarrow> bool"
  statMtime :: "string \<Rightarrow> 's \<Rightarrow> nat"
  mkdirSync :: "string \<Rightarrow> 's \<Rightarrow> exn option \<times> 's"
  writeFileSync :: "string \<Rightarrow> string \<Rightarrow> 's \<Rightarrow> exn option \<times> 's"
  readFileSync :: "string \<Rightarrow> 's \<Rightarrow> exn + string"
  rmSync :: "string \<Rightarrow> 's \<Rightarrow> exn option \<times> 's"
  dateNow :: "'s \<Rightarrow> nat"
  tmpdir :: string
  homedir :: string
  pathJoin :: "string \<Rightarrow> string \<Rightarrow> string"

text \<open>The state a run threads: the environment's state and the commands handed to
  \<^verbatim>\<open>execSync\<close> so far, oldest first, each with its working directory.\<close>

record 's world =
  sys :: 's
  ran :: "(string \<times> string option) list"

subsection \<open>types.ts\<close>

datatype ref_status = Ahead | Behind | Same | Diverged | New | Missing

text \<open>\<^verbatim>\<open>RepoConfig\<close>; \<open>markSource\<close> is optional.\<close>

record RepoConfig =
  repo_name :: string
  repo_public :: string
  repo_private :: string
  markSource :: "bool option"

text \<open>\<^verbatim>\<open>RefComparison\<close>. The field \<^verbatim>\<open>name\<close> is declared a string; \<^verbatim>\<open>compareRefs\<close> fills it
  from a destructured array and leaves it \<^verbatim>\<open>undefined\<close> for a reference name without a
  slash, hence the option. The counts are optional fields.\<close>

record RefComparison =
  ref_name :: "string option"
  localRef :: "string option"
  privateRef :: "string option"
  ref_status :: ref_status
  aheadCount :: "number option"
  behindCount :: "number option"

text \<open>\<^verbatim>\<open>RepoStatus\<close>; \<open>pulledAt\<close> is a time in milliseconds.\<close>

record RepoStatus =
  rs_name :: string
  publicUrl :: string
  privateUrl :: string
  pulled :: bool
  pulledAt :: "nat option"
  branches :: "RefComparison list"
  tags :: "RefComparison list"
  rs_error :: "string option"

subsection \<open>git.ts\<close>

record ExecResult =
  success :: bool
  ex_output :: string
  error :: "string option"

text \<open>\<^verbatim>\<open>exec(command, cwd, silent)\<close>: the output is trimmed, \<^verbatim>\<open>null\<close> and the empty string
  become the empty string; a thrown error becomes a failed result whose error is the
  standard error when that is a non-empty string, the message otherwise.\<close>

definition exec ::
  "'s node \<Rightarrow> string \<Rightarrow> string option \<Rightarrow> bool \<Rightarrow> 's world \<Rightarrow> ExecResult \<times> 's world" where
  "exec nd command cwd silent w =
     (case execSync nd command cwd silent (sys w) of
        (r, s') \<Rightarrow>
          ((case r of
              Returned out \<Rightarrow>
                \<lparr>success = True,
                 ex_output = (case out of None \<Rightarrow> [] | Some s \<Rightarrow> trim s),
                 error = None\<rparr>
            | Threw st serr msg \<Rightarrow>
                \<lparr>success = False,
                 ex_output = [],
                 error = Some (case serr of
                                 None \<Rightarrow> msg
                               | Some e \<Rightarrow> if e \<noteq> [] then e else msg)\<rparr>),
           \<lparr>sys = s', ran = ran w @ [(command, cwd)]\<rparr>))"

definition fetchRemote :: "'s node \<Rightarrow> string \<Rightarrow> string \<Rightarrow> 's world \<Rightarrow> ExecResult \<times> 's world" where
  "fetchRemote nd repoPath remoteName w =
     exec nd (''git fetch '' @ remoteName) (Some repoPath) True w"

definition pushMirror :: "'s node \<Rightarrow> string \<Rightarrow> string \<Rightarrow> 's world \<Rightarrow> ExecResult \<times> 's world" where
  "pushMirror nd repoPath remoteName w =
     exec nd (''git push --mirror '' @ remoteName) (Some repoPath) False w"

definition isAncestor ::
  "'s node \<Rightarrow> string \<Rightarrow> string \<Rightarrow> string \<Rightarrow> 's world \<Rightarrow> bool \<times> 's world" where
  "isAncestor nd repoPath ancestor descendant w =
     (case exec nd (''git merge-base --is-ancestor '' @ ancestor @ '' '' @ descendant)
             (Some repoPath) True w of
        (result, w') \<Rightarrow> (success result, w'))"

text \<open>\<^verbatim>\<open>getCommitCount\<close>: \<^verbatim>\<open>parseInt(output, 10) || 0\<close> maps \<^verbatim>\<open>NaN\<close> and zero to zero.\<close>

definition getCommitCount ::
  "'s node \<Rightarrow> string \<Rightarrow> string \<Rightarrow> string \<Rightarrow> 's world \<Rightarrow> number \<times> 's world" where
  "getCommitCount nd repoPath from to w =
     (case exec nd (''git rev-list --count '' @ from @ ''..'' @ to) (Some repoPath) True w of
        (result, w') \<Rightarrow>
          (if success result
           then (case parseInt10 (ex_output result) of None \<Rightarrow> Num 0 | Some n \<Rightarrow> n)
           else Num 0,
           w'))"

text \<open>
  \<^verbatim>\<open>compareRefs\<close>. An inventory is a JavaScript \<^verbatim>\<open>Map\<close>, here the list of its entries
  in insertion order; \<^verbatim>\<open>get\<close> is \<^const>\<open>map_of\<close>, \<^verbatim>\<open>has\<close> tests the keys.
  \<^verbatim>\<open>privateRefs.get(refName) || null\<close> is \<^verbatim>\<open>null\<close> for a missing key and for an empty
  string. \<^verbatim>\<open>refName.split("/", 2)\<close> keeps the first two pieces. The arrays \<^verbatim>\<open>branches\<close>
  and \<^verbatim>\<open>tags\<close> are the accumulator; \<^verbatim>\<open>target.push\<close> appends to one of them.
\<close>

definition orNull :: "string option \<Rightarrow> string option" where
  "orNull v = (case v of None \<Rightarrow> None | Some s \<Rightarrow> if s = [] then None else Some s)"

definition refType :: "string \<Rightarrow> string" where
  "refType refName = hd (take 2 (split_on CHR ''/'' refName))"

definition shortName :: "string \<Rightarrow> string option" where
  "shortName refName = at_index (take 2 (split_on CHR ''/'' refName)) 1"

definition pushTarget ::
  "string \<Rightarrow> RefComparison \<Rightarrow> RefComparison list \<times> RefComparison list
     \<Rightarrow> RefComparison list \<times> RefComparison list" where
  "pushTarget refName r acc =
     (if refType refName = ''tags'' then (fst acc, snd acc @ [r]) else (fst acc @ [r], snd acc))"

fun checkLocalRefs ::
  "'s node \<Rightarrow> string \<Rightarrow> (string \<times> string) list \<Rightarrow> (string \<times> string) list
     \<Rightarrow> RefComparison list \<times> RefComparison list \<Rightarrow> 's world
     \<Rightarrow> (RefComparison list \<times> RefComparison list) \<times> 's world" where
  "checkLocalRefs nd repoPath privateRefs [] acc w = (acc, w)"
| "checkLocalRefs nd repoPath privateRefs ((refName, localSha) # rest) acc w =
     (case orNull (map_of privateRefs refName) of
        None \<Rightarrow>
          checkLocalRefs nd repoPath privateRefs rest
            (pushTarget refName
               \<lparr>ref_name = shortName refName, localRef = Some localSha, privateRef = None,
                ref_status = New, aheadCount = None, behindCount = None\<rparr> acc) w
      | Some privateSha \<Rightarrow>
          if localSha = privateSha then
            checkLocalRefs nd repoPath privateRefs rest
              (pushTarget refName
                 \<lparr>ref_name = shortName refName, localRef = Some localSha,
                  privateRef = Some privateSha,
                  ref_status = Same, aheadCount = None, behindCount = None\<rparr> acc) w
          else
            (case isAncestor nd repoPath localSha privateSha w of
               (localIsAncestor, w1) \<Rightarrow>
            (case isAncestor nd repoPath privateSha localSha w1 of
               (privateIsAncestor, w2) \<Rightarrow>
                 if privateIsAncestor then
                   (case getCommitCount nd repoPath privateSha localSha w2 of
                      (n, w3) \<Rightarrow>
                        checkLocalRefs nd repoPath privateRefs rest
                          (pushTarget refName
                             \<lparr>ref_name = shortName refName, localRef = Some localSha,
                              privateRef = Some privateSha,
                              ref_status = Ahead, aheadCount = Some n,
                              behindCount = None\<rparr> acc) w3)
                 else if localIsAncestor then
                   (case getCommitCount nd repoPath localSha privateSha w2 of
                      (n, w3) \<Rightarrow>
                        checkLocalRefs nd repoPath privateRefs rest
                          (pushTarget refName
                             \<lparr>ref_name = shortName refName, localRef = Some localSha,
                              privateRef = Some privateSha,
                              ref_status = Behind, aheadCount = None,
                              behindCount = Some n\<rparr> acc) w3)
                 else
                   checkLocalRefs nd repoPath privateRefs rest
                     (pushTarget refName
                        \<lparr>ref_name = shortName refName, localRef = Some localSha,
                         privateRef = Some privateSha,
                         ref_status = Diverged, aheadCount = None,
                         behindCount = None\<rparr> acc) w2)))"

fun checkPrivateRefs ::
  "(string \<times> string) list \<Rightarrow> (string \<times> string) list
     \<Rightarrow> RefComparison list \<times> RefComparison list
     \<Rightarrow> RefComparison list \<times> RefComparison list" where
  "checkPrivateRefs localRefs [] acc = acc"
| "checkPrivateRefs localRefs ((refName, privateSha) # rest) acc =
     (if refName \<notin> fst ` set localRefs then
        checkPrivateRefs localRefs rest
          (pushTarget refName
             \<lparr>ref_name = shortName refName, localRef = None, privateRef = Some privateSha,
              ref_status = Missing, aheadCount = None, behindCount = None\<rparr> acc)
      else checkPrivateRefs localRefs rest acc)"

definition compareRefs ::
  "'s node \<Rightarrow> string \<Rightarrow> (string \<times> string) list \<Rightarrow> (string \<times> string) list \<Rightarrow> 's world
     \<Rightarrow> (RefComparison list \<times> RefComparison list) \<times> 's world" where
  "compareRefs nd repoPath localRefs privateRefs w =
     (case checkLocalRefs nd repoPath privateRefs localRefs ([], []) w of
        (acc, w') \<Rightarrow> (checkPrivateRefs localRefs privateRefs acc, w'))"


text \<open>\<^verbatim>\<open>repoExists\<close> and \<^verbatim>\<open>getRepoCloneTime\<close>.\<close>

definition repoExists :: "'s node \<Rightarrow> string \<Rightarrow> 's world \<Rightarrow> bool \<times> 's world" where
  "repoExists nd repoPath w =
     (if \<not> existsSync nd repoPath (sys w) then (False, w)
      else (case exec nd ''git rev-parse --git-dir'' (Some repoPath) True w of
              (result, w') \<Rightarrow> (success result, w')))"

definition getRepoCloneTime :: "'s node \<Rightarrow> string \<Rightarrow> 's world \<Rightarrow> nat option" where
  "getRepoCloneTime nd repoPath w =
     (if \<not> existsSync nd repoPath (sys w) then None
      else Some (statMtime nd repoPath (sys w)))"

text \<open>
  \<^verbatim>\<open>getLocalRefs\<close>. \<^verbatim>\<open>refs.set\<close> is \<^const>\<open>AList.update\<close>: a present key keeps its place, a
  new key goes last. Each line is split at the spaces and its first two pieces are
  read; both must be non-empty strings.
\<close>

fun setShortRefs ::
  "string \<Rightarrow> string list \<Rightarrow> (string \<times> string) list \<Rightarrow> (string \<times> string) list" where
  "setShortRefs kind [] refs = refs"
| "setShortRefs kind (line # rest) refs =
     (case (at_index (split_on CHR '' '' line) 0, at_index (split_on CHR '' '' line) 1) of
        (Some name, Some sha) \<Rightarrow>
          if name \<noteq> [] \<and> sha \<noteq> []
          then setShortRefs kind rest (AList.update (kind @ name) sha refs)
          else setShortRefs kind rest refs
      | _ \<Rightarrow> setShortRefs kind rest refs)"

definition getLocalRefs ::
  "'s node \<Rightarrow> string \<Rightarrow> 's world \<Rightarrow> (string \<times> string) list \<times> 's world" where
  "getLocalRefs nd repoPath w =
     (case exec nd ''git for-each-ref --format='%(refname:short) %(objectname)' refs/heads/''
             (Some repoPath) True w of
        (branchesResult, w1) \<Rightarrow>
     (case exec nd ''git for-each-ref --format='%(refname:short) %(objectname)' refs/tags/''
             (Some repoPath) True w1 of
        (tagsResult, w2) \<Rightarrow>
          (let refs1 =
                 (if success branchesResult \<and> ex_output branchesResult \<noteq> []
                  then setShortRefs ''heads/'' (split_on CHR 0x0A (ex_output branchesResult)) []
                  else [])
           in if success tagsResult \<and> ex_output tagsResult \<noteq> []
              then setShortRefs ''tags/'' (split_on CHR 0x0A (ex_output tagsResult)) refs1
              else refs1,
           w2)))"

text \<open>
  \<^verbatim>\<open>getRemoteRefs\<close>. The two regular expressions are read as functions. A dot matches
  every character but a line terminator (line feed and carriage return, the ASCII part); \<^verbatim>\<open>[a-f0-9]\<close> is a lower-case hexadecimal digit.

  \<^verbatim>\<open>/^refs\/remotes\/[^/]+\/(.+) ([a-f0-9]+)$/\<close>: after the prefix comes a non-empty remote
  name up to the first slash; the hash is what follows the last space of the rest, the
  name what precedes it.
\<close>

definition isHex :: "char \<Rightarrow> bool" where
  "isHex c = (isDigit c \<or> (97 \<le> (of_char c :: nat) \<and> (of_char c :: nat) \<le> 102))"

definition isLineTerminator :: "char \<Rightarrow> bool" where
  "isLineTerminator c = (c = CHR 0x0A \<or> c = CHR 0x0D)"

definition startsWith :: "string \<Rightarrow> string \<Rightarrow> bool" where
  "startsWith s p = (take (length p) s = p)"

definition endsWith :: "string \<Rightarrow> string \<Rightarrow> bool" where
  "endsWith s p = (length p \<le> length s \<and> drop (length s - length p) s = p)"

definition matchRemoteHead :: "string \<Rightarrow> (string \<times> string) option" where
  "matchRemoteHead line =
     (if \<not> startsWith line ''refs/remotes/'' then None
      else
        (let r1 = drop 13 line;
             remote = takeWhile (\<lambda>c. c \<noteq> CHR ''/'') r1;
             r2 = dropWhile (\<lambda>c. c \<noteq> CHR ''/'') r1
         in if remote = [] \<or> r2 = [] then None
            else
              (let r3 = tl r2;
                   sha = rev (takeWhile (\<lambda>c. c \<noteq> CHR '' '') (rev r3));
                   name = rev (tl (dropWhile (\<lambda>c. c \<noteq> CHR '' '') (rev r3)))
               in if CHR '' '' \<notin> set r3 then None
                  else if name = [] \<or> (\<exists>c \<in> set name. isLineTerminator c) then None
                  else if sha = [] \<or> (\<exists>c \<in> set sha. \<not> isHex c) then None
                  else Some (name, sha))))"

text \<open>\<^verbatim>\<open>/^([a-f0-9]+)\s+refs\/tags\/(.+)$/\<close>: the hash is the leading run of hexadecimal
  digits, then comes a non-empty run of white space, the prefix, and the name.\<close>

definition matchRemoteTag :: "string \<Rightarrow> (string \<times> string) option" where
  "matchRemoteTag line =
     (let sha = takeWhile isHex line;
          r1 = dropWhile isHex line;
          r2 = dropWhile isSpace r1;
          name = drop 10 r2
      in if sha = [] \<or> takeWhile isSpace r1 = [] then None
         else if \<not> startsWith r2 ''refs/tags/'' then None
         else if name = [] \<or> (\<exists>c \<in> set name. isLineTerminator c) then None
         else Some (sha, name))"

fun setRemoteHeads :: "string list \<Rightarrow> (string \<times> string) list \<Rightarrow> (string \<times> string) list" where
  "setRemoteHeads [] refs = refs"
| "setRemoteHeads (line # rest) refs =
     (case matchRemoteHead line of
        Some (name, sha) \<Rightarrow> setRemoteHeads rest (AList.update (''heads/'' @ name) sha refs)
      | None \<Rightarrow> setRemoteHeads rest refs)"

fun setRemoteTags :: "string list \<Rightarrow> (string \<times> string) list \<Rightarrow> (string \<times> string) list" where
  "setRemoteTags [] refs = refs"
| "setRemoteTags (line # rest) refs =
     (case matchRemoteTag line of
        Some (sha, name) \<Rightarrow>
          if \<not> endsWith name ''^{}''
          then setRemoteTags rest (AList.update (''tags/'' @ name) sha refs)
          else setRemoteTags rest refs
      | None \<Rightarrow> setRemoteTags rest refs)"

definition getRemoteRefs ::
  "'s node \<Rightarrow> string \<Rightarrow> string \<Rightarrow> 's world \<Rightarrow> (string \<times> string) list \<times> 's world" where
  "getRemoteRefs nd repoPath remoteName w =
     (case exec nd
             (''git for-each-ref --format='%(refname) %(objectname)' refs/remotes/''
                @ remoteName @ ''/'')
             (Some repoPath) True w of
        (result, w1) \<Rightarrow>
     (case exec nd (''git ls-remote --tags '' @ remoteName) (Some repoPath) True w1 of
        (tagsResult, w2) \<Rightarrow>
          (let refs1 =
                 (if success result \<and> ex_output result \<noteq> []
                  then setRemoteHeads (split_on CHR 0x0A (ex_output result)) []
                  else [])
           in if success tagsResult \<and> ex_output tagsResult \<noteq> []
              then setRemoteTags (split_on CHR 0x0A (ex_output tagsResult)) refs1
              else refs1,
           w2)))"

text \<open>\<^verbatim>\<open>getDefaultBranch\<close>; \<^verbatim>\<open>s.replace("refs/heads/", "")\<close> drops the first occurrence.\<close>

fun removeFirst :: "string \<Rightarrow> string \<Rightarrow> string" where
  "removeFirst pat [] = []"
| "removeFirst pat (x # xs) =
     (if startsWith (x # xs) pat then drop (length pat) (x # xs)
      else x # removeFirst pat xs)"

definition getDefaultBranch :: "'s node \<Rightarrow> string \<Rightarrow> 's world \<Rightarrow> string \<times> 's world" where
  "getDefaultBranch nd repoPath w =
     (case exec nd ''git symbolic-ref HEAD'' (Some repoPath) True w of
        (result, w1) \<Rightarrow>
          if success result then (removeFirst ''refs/heads/'' (ex_output result), w1)
          else (case exec nd ''git show-ref --verify refs/heads/main'' (Some repoPath) True w1 of
                  (mainExists, w2) \<Rightarrow>
                    if success mainExists then (''main'', w2) else (''master'', w2)))"


text \<open>
  \<^verbatim>\<open>addSourceNotice\<close>. \<open>templ\<close> is how a template literal prints an optional string.
  \<open>indexOf\<close> is the position of the first occurrence of a text. The regular expression
  \<^verbatim>\<open>/<!-- repo-sync-source-notice -->[\s\S]*?<!-- end-repo-sync-source-notice -->\n*/\<close>
  matches from the first start marker to the first end marker after it and the line
  feeds that follow; \<^verbatim>\<open>replace\<close> drops that one match, and nothing without a match.
\<close>

definition templ :: "string option \<Rightarrow> string" where
  "templ v = (case v of None \<Rightarrow> ''undefined'' | Some e \<Rightarrow> e)"

fun indexOf :: "string \<Rightarrow> string \<Rightarrow> nat option" where
  "indexOf pat [] = (if pat = [] then Some 0 else None)"
| "indexOf pat (x # xs) =
     (if startsWith (x # xs) pat then Some 0 else map_option Suc (indexOf pat xs))"

definition noticeMarker :: string where
  "noticeMarker = ''<!-- repo-sync-source-notice -->''"

definition noticeEnd :: string where
  "noticeEnd = ''<!-- end-repo-sync-source-notice -->''"

definition removeNotice :: "string \<Rightarrow> string" where
  "removeNotice content =
     (case indexOf noticeMarker content of
        None \<Rightarrow> content
      | Some i \<Rightarrow>
          (let rest = drop (i + length noticeMarker) content
           in case indexOf noticeEnd rest of
                None \<Rightarrow> content
              | Some j \<Rightarrow>
                  take i content
                    @ dropWhile (\<lambda>c. c = CHR 0x0A) (drop (j + length noticeEnd) rest)))"

text \<open>The notice; the pictograph U+1F4E6 is written as its four bytes.\<close>

definition notice :: "string \<Rightarrow> string" where
  "notice sourceUrl =
     noticeMarker @ [CHR 0x0A]
       @ ''> **'' @ [CHR 0xF0, CHR 0x9F, CHR 0x93, CHR 0xA6] @ '' Mirrored Repository**''
       @ [CHR 0x0A] @ ''>'' @ [CHR 0x0A]
       @ ''> This repository is automatically mirrored from ['' @ sourceUrl @ '']('' @ sourceUrl
       @ '').'' @ [CHR 0x0A]
       @ ''> Do not commit directly to this repository.'' @ [CHR 0x0A]
       @ noticeEnd @ [CHR 0x0A, CHR 0x0A]"

definition readmeNames :: "string list" where
  "readmeNames =
     [''README.md'', ''readme.md'', ''README.MD'', ''README'', ''readme'', ''README.txt'',
      ''readme.txt'']"

text \<open>The search loop: the first name whose path exists, with that path.\<close>

fun findReadme :: "'s node \<Rightarrow> string \<Rightarrow> 's \<Rightarrow> string list \<Rightarrow> (string \<times> string) option" where
  "findReadme nd tempDir s [] = None"
| "findReadme nd tempDir s (name # rest) =
     (if existsSync nd (pathJoin nd tempDir name) s then Some (pathJoin nd tempDir name, name)
      else findReadme nd tempDir s rest)"

text \<open>
  The body of the \<^verbatim>\<open>try\<close> block, in three parts. \<open>writeNotice\<close> is the part between the
  clone and the git configuration: it finds or creates the README, reads it, drops an
  earlier notice and writes the file with the notice in front; it returns the name of the
  README. \<open>commitNotice\<close> is the part from the git configuration to the end. The block has
  no \<^verbatim>\<open>catch\<close>: an exception of a file-system call ends it, here \<^term>\<open>Inl\<close>.
\<close>

definition writeNotice ::
  "'s node \<Rightarrow> string \<Rightarrow> string \<Rightarrow> 's world \<Rightarrow> (exn + string) \<times> 's world" where
  "writeNotice nd sourceUrl tempDir w1 =
     (let found = findReadme nd tempDir (sys w1) readmeNames;
          create = (case found of None \<Rightarrow> True
                    | Some (path, name) \<Rightarrow> path = [] \<or> name = []);
          readmePath = (case found of None \<Rightarrow> pathJoin nd tempDir ''README.md''
                        | Some (path, name) \<Rightarrow>
                            if create then pathJoin nd tempDir ''README.md'' else path);
          readmeName = (case found of None \<Rightarrow> ''README.md''
                        | Some (path, name) \<Rightarrow> if create then ''README.md'' else name)
      in case (if create then writeFileSync nd readmePath [] (sys w1) else (None, sys w1)) of
           (Some e, s2) \<Rightarrow> (Inl e, w1\<lparr>sys := s2\<rparr>)
         | (None, s2) \<Rightarrow>
             (case readFileSync nd readmePath s2 of
                Inl e \<Rightarrow> (Inl e, w1\<lparr>sys := s2\<rparr>)
              | Inr currentContent \<Rightarrow>
                  (let newContent = (if indexOf noticeMarker currentContent \<noteq> None
                                     then removeNotice currentContent else currentContent)
                   in case writeFileSync nd readmePath (notice sourceUrl @ newContent) s2 of
                        (Some e, s3) \<Rightarrow> (Inl e, w1\<lparr>sys := s3\<rparr>)
                      | (None, s3) \<Rightarrow> (Inr readmeName, w1\<lparr>sys := s3\<rparr>))))"

definition commitNotice ::
  "'s node \<Rightarrow> string \<Rightarrow> string \<Rightarrow> string \<Rightarrow> 's world \<Rightarrow> ExecResult \<times> 's world" where
  "commitNotice nd branch tempDir readmeName w3 =
     (case exec nd ''git config user.email \"repo-sync@localhost\"'' (Some tempDir) True w3 of
        (r4, w4) \<Rightarrow>
     (case exec nd ''git config user.name \"repo-sync\"'' (Some tempDir) True w4 of
        (r5, w5) \<Rightarrow>
     (case exec nd (''git add \"'' @ readmeName @ ''\"'') (Some tempDir) True w5 of
        (r6, w6) \<Rightarrow>
     (case exec nd ''git commit -m \"Add source repository notice\"'' (Some tempDir) True w6 of
        (commitResult, w7) \<Rightarrow>
          if \<not> success commitResult then
            (\<lparr>success = False, ex_output = [],
              error = Some (''Failed to commit: '' @ templ (error commitResult))\<rparr>, w7)
          else
            (case exec nd (''git push origin '' @ branch) (Some tempDir) True w7 of
               (pushResult, w8) \<Rightarrow>
                 if \<not> success pushResult then
                   (\<lparr>success = False, ex_output = [],
                     error = Some (''Failed to push to bare repo: ''
                                     @ templ (error pushResult))\<rparr>, w8)
                 else
                   (\<lparr>success = True, ex_output = ''Source notice added'',
                     error = None\<rparr>, w8))))))"

definition noticeSteps ::
  "'s node \<Rightarrow> string \<Rightarrow> string \<Rightarrow> string \<Rightarrow> string \<Rightarrow> 's world
     \<Rightarrow> (exn + ExecResult) \<times> 's world" where
  "noticeSteps nd repoPath sourceUrl branch tempDir w =
     (case mkdirSync nd tempDir (sys w) of
        (Some e, s0) \<Rightarrow> (Inl e, w\<lparr>sys := s0\<rparr>)
      | (None, s0) \<Rightarrow>
     (case exec nd (''git clone \"'' @ repoPath @ ''\" \"'' @ tempDir @ ''\" --branch ''
                      @ branch @ '' --single-branch'') None True
             (w\<lparr>sys := s0\<rparr>) of
        (cloneResult, w1) \<Rightarrow>
          if \<not> success cloneResult then
            (Inr \<lparr>success = False, ex_output = [],
                  error = Some (''Failed to clone to temp: '' @ templ (error cloneResult))\<rparr>,
             w1)
          else
            (case writeNotice nd sourceUrl tempDir w1 of
               (Inl e, w3) \<Rightarrow> (Inl e, w3)
             | (Inr readmeName, w3) \<Rightarrow>
                 (case commitNotice nd branch tempDir readmeName w3 of
                    (result, w8) \<Rightarrow> (Inr result, w8)))))"

text \<open>
  The function with its \<^verbatim>\<open>finally\<close> block, which runs after a return and after an
  exception alike. When \<^verbatim>\<open>rmSync\<close> throws there, its exception replaces the outcome of
  the \<^verbatim>\<open>try\<close> block; otherwise that outcome stands.
\<close>

definition addSourceNotice ::
  "'s node \<Rightarrow> string \<Rightarrow> string \<Rightarrow> string \<Rightarrow> 's world \<Rightarrow> (exn + ExecResult) \<times> 's world" where
  "addSourceNotice nd repoPath sourceUrl branch w =
     (let tempDir = pathJoin nd (tmpdir nd) (''repo-sync-'' @ decimal (dateNow nd (sys w)))
      in case noticeSteps nd repoPath sourceUrl branch tempDir w of
           (outcome, w') \<Rightarrow>
             if existsSync nd tempDir (sys w')
             then (case rmSync nd tempDir (sys w') of
                     (Some e, s) \<Rightarrow> (Inl e, w'\<lparr>sys := s\<rparr>)
                   | (None, s) \<Rightarrow> (outcome, w'\<lparr>sys := s\<rparr>))
             else (outcome, w'))"

subsection \<open>config.ts\<close>

definition getTempDir :: "'s node \<Rightarrow> string" where
  "getTempDir nd = pathJoin nd (pathJoin nd (homedir nd) ''.repo-sync'') ''repos''"

definition getRepoTempPath :: "'s node \<Rightarrow> string \<Rightarrow> string" where
  "getRepoTempPath nd repoName = pathJoin nd (getTempDir nd) (repoName @ ''.git'')"

subsection \<open>sync.ts\<close>

record StatusResult =
  sr_status :: RepoStatus
  canPush :: bool
  hasChanges :: bool
  errors :: "string list"

record PushResult =
  pr_success :: bool
  pushed :: bool
  pr_error :: "string option"

text \<open>\<^verbatim>\<open>xs.join(sep)\<close>.\<close>

fun joinWith :: "string \<Rightarrow> string list \<Rightarrow> string" where
  "joinWith sep [] = []"
| "joinWith sep [x] = x"
| "joinWith sep (x # y # ys) = x @ sep @ joinWith sep (y # ys)"

definition status :: "'s node \<Rightarrow> RepoConfig \<Rightarrow> 's world \<Rightarrow> StatusResult \<times> 's world" where
  "status nd repo w =
     (let repoPath = getRepoTempPath nd (repo_name repo);
          baseStatus = \<lparr>rs_name = repo_name repo, publicUrl = repo_public repo,
                        privateUrl = repo_private repo, pulled = False, pulledAt = None,
                        branches = [], tags = [], rs_error = None\<rparr>
      in case repoExists nd repoPath w of
        (ex, w1) \<Rightarrow>
          if \<not> ex then
            (\<lparr>sr_status = baseStatus\<lparr>rs_error :=
                             Some ''Not pulled yet. Run 'repo-sync pull' first.''\<rparr>,
              canPush = False, hasChanges = False, errors = [''Not pulled yet'']\<rparr>, w1)
          else
            (case fetchRemote nd repoPath ''private'' w1 of
               (fetchResult, w2) \<Rightarrow>
            (case getLocalRefs nd repoPath w2 of
               (localRefs, w3) \<Rightarrow>
            (case getRemoteRefs nd repoPath ''private'' w3 of
               (privateRefs, w4) \<Rightarrow>
            (case compareRefs nd repoPath localRefs privateRefs w4 of
               ((bs, ts), w5) \<Rightarrow>
                 (let hasBehind = list_ex (\<lambda>r. ref_status r = Behind) (bs @ ts);
                      hasDiverged = list_ex (\<lambda>r. ref_status r = Diverged) (bs @ ts);
                      changes = list_ex (\<lambda>r. ref_status r = Ahead \<or> ref_status r = New
                                                \<or> ref_status r = Missing) (bs @ ts)
                  in (\<lparr>sr_status = baseStatus\<lparr>pulled := True,
                                       pulledAt := getRepoCloneTime nd repoPath w1,
                                       branches := bs, tags := ts\<rparr>,
                       canPush = (\<not> hasBehind \<and> \<not> hasDiverged),
                       hasChanges = changes,
                       errors =
                         (if hasBehind
                          then [''Private has commits not in public - this shouldn't happen'']
                          else [])
                         @ (if hasDiverged
                            then [''Refs have diverged - manual intervention may be needed'']
                            else [])\<rparr>,
                      w5)))))))"

text \<open>
  \<^verbatim>\<open>push\<close>. Each of the three stages either leaves the function (\<^term>\<open>Some\<close> of the
  outcome) or falls through to the next one. An outcome is the returned result,
  \<^term>\<open>Inr\<close>, or the exception that \<^verbatim>\<open>addSourceNotice\<close> threw, \<^term>\<open>Inl\<close>: \<^verbatim>\<open>push\<close> does not
  catch it.
\<close>

definition push :: "'s node \<Rightarrow> RepoConfig \<Rightarrow> 's world \<Rightarrow> (exn + PushResult) \<times> 's world" where
  "push nd repo w =
     (let repoPath = getRepoTempPath nd (repo_name repo);
          mark = (markSource repo = Some True)
      in case repoExists nd repoPath w of
        (ex, w1) \<Rightarrow>
          if \<not> ex then
            (Inr \<lparr>pr_success = False, pushed = False,
                  pr_error = Some ''Not pulled yet. Run 'repo-sync pull' first.''\<rparr>, w1)
          else
            (case (if \<not> mark then
                     (case status nd repo w1 of
                        (statusResult, w2) \<Rightarrow>
                          if \<not> canPush statusResult then
                            (Some (Inr \<lparr>pr_success = False, pushed = False,
                                        pr_error = Some (joinWith ''; ''
                                                           (errors statusResult))\<rparr>),
                             w2)
                          else if \<not> hasChanges statusResult then
                            (Some (Inr \<lparr>pr_success = True, pushed = False,
                                        pr_error = None\<rparr>), w2)
                          else (None, w2))
                   else (None, w1)) of
               (Some res, w2) \<Rightarrow> (res, w2)
             | (None, w2) \<Rightarrow>
            (case (if mark then
                     (case getDefaultBranch nd repoPath w2 of
                        (branch, w3) \<Rightarrow>
                     (case addSourceNotice nd repoPath (repo_public repo) branch w3 of
                        (Inl e, w4) \<Rightarrow> (Some (Inl e), w4)
                      | (Inr noticeResult, w4) \<Rightarrow>
                          if \<not> success noticeResult then
                            (Some (Inr \<lparr>pr_success = False, pushed = False,
                                        pr_error = Some (''Failed to add source notice: ''
                                                           @ templ (error noticeResult))\<rparr>),
                             w4)
                          else (None, w4)))
                   else (None, w2)) of
               (Some res, w4) \<Rightarrow> (res, w4)
             | (None, w4) \<Rightarrow>
            (case pushMirror nd repoPath ''private'' w4 of
               (pushResult, w5) \<Rightarrow>
                 if \<not> success pushResult then
                   (Inr \<lparr>pr_success = False, pushed = False,
                         pr_error = Some (''Failed to push: '' @ templ (error pushResult))\<rparr>,
                    w5)
                 else (Inr \<lparr>pr_success = True, pushed = True, pr_error = None\<rparr>, w5)))))"

section \<open>Notions the properties are stated in\<close>

subsection \<open>The commit history and a truthful git\<close>

text \<open>
  A history is the set of pairs (commit, parent). A commit is an ancestor of another
  when parent links lead from the second to the first; every commit is an ancestor of
  itself, as \<^verbatim>\<open>git merge-base --is-ancestor\<close> has it. \<open>exclusive_count G lower higher\<close> is
  the number of commits reachable from \<open>higher\<close> and not from \<open>lower\<close>, which is what
  \<^verbatim>\<open>git rev-list --count lower..higher\<close> prints.
\<close>

definition is_ancestor :: "(string \<times> string) set \<Rightarrow> string \<Rightarrow> string \<Rightarrow> bool" where
  "is_ancestor G a d = ((d, a) \<in> G\<^sup>*)"

definition exclusive_count :: "(string \<times> string) set \<Rightarrow> string \<Rightarrow> string \<Rightarrow> nat" where
  "exclusive_count G lower higher = card {c. is_ancestor G c higher \<and> \<not> is_ancestor G c lower}"

text \<open>A command that exits with status 0 returns; every other outcome is thrown.\<close>

definition returned :: "proc \<Rightarrow> bool" where
  "returned r = (case r of Returned out \<Rightarrow> True | Threw st serr msg \<Rightarrow> False)"

text \<open>
  Three assumptions on the environment in a state \<open>s\<close>, each about the commit
  identifiers of a set \<open>ids\<close>: the two queries of \<^const>\<open>compareRefs\<close> leave the state as it
  is; the ancestry query exits with status 0 exactly for an ancestor in the history \<open>G\<close>;
  the count query prints the exclusive count of \<open>G\<close> and a line feed.
\<close>

definition queries_pure :: "'s node \<Rightarrow> string \<Rightarrow> 's \<Rightarrow> string set \<Rightarrow> bool" where
  "queries_pure nd repoPath s ids \<longleftrightarrow>
     (\<forall>a \<in> ids. \<forall>d \<in> ids.
        snd (execSync nd (''git merge-base --is-ancestor '' @ a @ '' '' @ d)
               (Some repoPath) True s) = s
        \<and> snd (execSync nd (''git rev-list --count '' @ a @ ''..'' @ d)
                 (Some repoPath) True s) = s)"

definition ancestry_truthful ::
  "'s node \<Rightarrow> string \<Rightarrow> 's \<Rightarrow> (string \<times> string) set \<Rightarrow> string set \<Rightarrow> bool" where
  "ancestry_truthful nd repoPath s G ids \<longleftrightarrow>
     (\<forall>a \<in> ids. \<forall>d \<in> ids.
        returned (fst (execSync nd (''git merge-base --is-ancestor '' @ a @ '' '' @ d)
                        (Some repoPath) True s))
          = is_ancestor G a d)"

definition count_truthful ::
  "'s node \<Rightarrow> string \<Rightarrow> 's \<Rightarrow> (string \<times> string) set \<Rightarrow> string set \<Rightarrow> bool" where
  "count_truthful nd repoPath s G ids \<longleftrightarrow>
     (\<forall>a \<in> ids. \<forall>d \<in> ids.
        fst (execSync nd (''git rev-list --count '' @ a @ ''..'' @ d) (Some repoPath) True s)
          = Returned (Some (decimal (exclusive_count G a d) @ [CHR 0x0A])))"

subsection \<open>The claimed classification\<close>

text \<open>
  The qualified names of a comparison: those of the source inventory in its order, then
  those found only in the destination inventory. \<open>status_claim\<close> is the determination of a
  status as the specification words it, for the name \<open>n\<close> of the source inventory \<open>src\<close>
  or the destination inventory \<open>dst\<close>.
\<close>

definition refNames :: "(string \<times> string) list \<Rightarrow> (string \<times> string) list \<Rightarrow> string list" where
  "refNames src dst = map fst src @ filter (\<lambda>n. n \<notin> fst ` set src) (map fst dst)"

definition status_claim ::
  "(string \<times> string) set \<Rightarrow> (string \<rightharpoonup> string) \<Rightarrow> (string \<rightharpoonup> string) \<Rightarrow> string
     \<Rightarrow> ref_status \<Rightarrow> bool" where
  "status_claim G src dst n st \<longleftrightarrow>
     (dst n = None \<longrightarrow> st = New) \<and>
     (src n \<noteq> None \<and> src n = dst n \<longrightarrow> st = Same) \<and>
     (\<forall>l p. src n = Some l \<and> dst n = Some p \<and> l \<noteq> p \<and> is_ancestor G p l \<longrightarrow> st = Ahead) \<and>
     (\<forall>l p. src n = Some l \<and> dst n = Some p \<and> l \<noteq> p \<and> is_ancestor G l p \<longrightarrow> st = Behind) \<and>
     (\<forall>l p. src n = Some l \<and> dst n = Some p \<and> l \<noteq> p
            \<and> \<not> is_ancestor G p l \<and> \<not> is_ancestor G l p \<longrightarrow> st = Diverged) \<and>
     (src n = None \<longrightarrow> st = Missing)"

text \<open>The array a record goes to: \<^verbatim>\<open>tags\<close> for a name whose first piece is \<^verbatim>\<open>tags\<close>.\<close>

definition isTag :: "string \<Rightarrow> bool" where
  "isTag refName = (refType refName = ''tags'')"

subsection \<open>What a comparison computes from the answers of git\<close>

text \<open>
  \<open>git_reports\<close>: in the state \<open>s\<close> the two queries about identifiers of \<open>ids\<close> have the
  outcomes \<open>mb\<close> and \<open>rl\<close> and leave the state as it is. \<open>countOf\<close> is what
  \<^const>\<open>getCommitCount\<close> makes of an outcome, \<open>localEntry\<close> the record the first loop of
  \<^const>\<open>compareRefs\<close> pushes for an entry of the source inventory, \<open>missingEntry\<close> the record
  of the second loop.
\<close>

definition git_reports ::
  "'s node \<Rightarrow> string \<Rightarrow> 's \<Rightarrow> string set \<Rightarrow> (string \<Rightarrow> string \<Rightarrow> proc)
     \<Rightarrow> (string \<Rightarrow> string \<Rightarrow> proc) \<Rightarrow> bool" where
  "git_reports nd repoPath s ids mb rl \<longleftrightarrow>
     (\<forall>a \<in> ids. \<forall>d \<in> ids.
        execSync nd (''git merge-base --is-ancestor '' @ a @ '' '' @ d) (Some repoPath) True s
          = (mb a d, s)
        \<and> execSync nd (''git rev-list --count '' @ a @ ''..'' @ d) (Some repoPath) True s
          = (rl a d, s))"

definition mbAnswer :: "'s node \<Rightarrow> string \<Rightarrow> 's \<Rightarrow> string \<Rightarrow> string \<Rightarrow> proc" where
  "mbAnswer nd repoPath s a d =
     fst (execSync nd (''git merge-base --is-ancestor '' @ a @ '' '' @ d) (Some repoPath) True s)"

definition rlAnswer :: "'s node \<Rightarrow> string \<Rightarrow> 's \<Rightarrow> string \<Rightarrow> string \<Rightarrow> proc" where
  "rlAnswer nd repoPath s a d =
     fst (execSync nd (''git rev-list --count '' @ a @ ''..'' @ d) (Some repoPath) True s)"

definition countOf :: "proc \<Rightarrow> number" where
  "countOf r =
     (case r of
        Returned out \<Rightarrow>
          (case parseInt10 (case out of None \<Rightarrow> [] | Some s \<Rightarrow> trim s) of
             None \<Rightarrow> Num 0 | Some n \<Rightarrow> n)
      | Threw st serr msg \<Rightarrow> Num 0)"

definition mkRef ::
  "string \<Rightarrow> string option \<Rightarrow> string option \<Rightarrow> ref_status \<Rightarrow> number option \<Rightarrow> number option
     \<Rightarrow> RefComparison" where
  "mkRef refName l p st a b =
     \<lparr>ref_name = shortName refName, localRef = l, privateRef = p, ref_status = st,
      aheadCount = a, behindCount = b\<rparr>"

definition localEntry ::
  "(string \<Rightarrow> string \<Rightarrow> proc) \<Rightarrow> (string \<Rightarrow> string \<Rightarrow> proc) \<Rightarrow> (string \<times> string) list
     \<Rightarrow> string \<times> string \<Rightarrow> RefComparison" where
  "localEntry mb rl privateRefs e =
     (case orNull (map_of privateRefs (fst e)) of
        None \<Rightarrow> mkRef (fst e) (Some (snd e)) None New None None
      | Some ps \<Rightarrow>
          if snd e = ps then mkRef (fst e) (Some (snd e)) (Some ps) Same None None
          else if returned (mb ps (snd e))
            then mkRef (fst e) (Some (snd e)) (Some ps) Ahead
                   (Some (countOf (rl ps (snd e)))) None
          else if returned (mb (snd e) ps)
            then mkRef (fst e) (Some (snd e)) (Some ps) Behind None
                   (Some (countOf (rl (snd e) ps)))
          else mkRef (fst e) (Some (snd e)) (Some ps) Diverged None None)"

definition missingEntry :: "string \<times> string \<Rightarrow> RefComparison" where
  "missingEntry e = mkRef (fst e) None (Some (snd e)) Missing None None"

subsection \<open>Sample environments\<close>

text \<open>
  An environment without state: the outcome of a command depends on the command alone,
  a path exists or not, files are empty and no file-system call throws.
\<close>

definition scripted :: "(string \<Rightarrow> proc) \<Rightarrow> (string \<Rightarrow> bool) \<Rightarrow> unit node" where
  "scripted answer present =
     \<lparr>execSync = (\<lambda>command cwd silent s. (answer command, s)),
      existsSync = (\<lambda>path s. present path),
      statMtime = (\<lambda>path s. 0),
      mkdirSync = (\<lambda>path s. (None, s)),
      writeFileSync = (\<lambda>path content s. (None, s)),
      readFileSync = (\<lambda>path s. Inr []),
      rmSync = (\<lambda>path s. (None, s)),
      dateNow = (\<lambda>s. 0),
      tmpdir = ''/tmp'',
      homedir = ''/home/u'',
      pathJoin = (\<lambda>a b. a @ ''/'' @ b)\<rparr>"

definition start :: "unit world" where
  "start = \<lparr>sys = (), ran = []\<rparr>"

text \<open>
  A history of three commits, \<open>b2\<close> with the parent \<open>a1\<close> and the unrelated \<open>c3\<close>, and a
  git that answers the ancestry query about them truthfully (status 1 for no).
\<close>

definition history3 :: "(string \<times> string) set" where
  "history3 = {(''b2'', ''a1'')}"

definition git3 :: "string \<Rightarrow> proc" where
  "git3 command =
     (if command \<in> set [''git merge-base --is-ancestor a1 b2'',
                          ''git merge-base --is-ancestor a1 a1'',
                          ''git merge-base --is-ancestor b2 b2'',
                          ''git merge-base --is-ancestor c3 c3'']
      then Returned (Some [])
      else if command = ''git rev-list --count a1..b2'' then Returned (Some (''1'' @ [CHR 0x0A]))
      else if command \<in> set [''git rev-list --count a1..a1'',
                               ''git rev-list --count b2..a1'',
                               ''git rev-list --count b2..b2'']
      then Returned (Some (''0'' @ [CHR 0x0A]))
      else Threw (Some 1) (Some []) ''Command failed'')"

definition local3 :: "(string \<times> string) list" where
  "local3 = [(''heads/main'', ''b2''), (''heads/old'', ''a1''), (''heads/x'', ''c3''),
             (''tags/v1'', ''a1''), (''heads/new'', ''b2'')]"

definition private3 :: "(string \<times> string) list" where
  "private3 = [(''heads/main'', ''a1''), (''heads/old'', ''b2''), (''heads/x'', ''a1''),
               (''tags/v1'', ''a1''), (''heads/gone'', ''a1'')]"

text \<open>One branch on each side, the source one commit ahead.\<close>

definition local1 :: "(string \<times> string) list" where
  "local1 = [(''heads/main'', ''b2'')]"

definition private1 :: "(string \<times> string) list" where
  "private1 = [(''heads/main'', ''a1'')]"

text \<open>A git whose every command fails outright, as on a missing commit object, and one
  whose every command exits with status 1.\<close>

definition gitBroken :: "string \<Rightarrow> proc" where
  "gitBroken command = Threw (Some 128) (Some ''fatal: Not a valid commit name'') ''Command failed''"

definition gitNo :: "string \<Rightarrow> proc" where
  "gitNo command = Threw (Some 1) (Some []) ''Command failed''"

subsection \<open>Commands on the record and verdicts\<close>

text \<open>
  \<open>ranWith P w\<close> are the commands of the kind \<open>P\<close> that were handed to \<^verbatim>\<open>execSync\<close> up to
  the state \<open>w\<close>. A mirror push is the command of \<^const>\<open>pushMirror\<close>; the commands of a
  comparison are those \<^const>\<open>status\<close> runs to fetch, to list references and to query
  ancestry and counts.
\<close>

definition isMirrorPush :: "string \<Rightarrow> bool" where
  "isMirrorPush command = startsWith command ''git push --mirror ''"

definition isComparison :: "string \<Rightarrow> bool" where
  "isComparison command =
     (startsWith command ''git fetch '' \<or> startsWith command ''git for-each-ref ''
      \<or> startsWith command ''git ls-remote '' \<or> startsWith command ''git merge-base ''
      \<or> startsWith command ''git rev-list '')"

definition ranWith :: "(string \<Rightarrow> bool) \<Rightarrow> 's world \<Rightarrow> (string \<times> string option) list" where
  "ranWith P w = filter (\<lambda>e. P (fst e)) (ran w)"

text \<open>The two blocking reasons of \<^const>\<open>status\<close>, the records of a result, and the result
  for a mirror that does not exist.\<close>

definition behindReason :: string where
  "behindReason = ''Private has commits not in public - this shouldn't happen''"

definition divergedReason :: string where
  "divergedReason = ''Refs have diverged - manual intervention may be needed''"

definition records :: "StatusResult \<Rightarrow> RefComparison list" where
  "records sr = branches (sr_status sr) @ tags (sr_status sr)"

definition notPulled :: "RepoConfig \<Rightarrow> StatusResult" where
  "notPulled repo =
     \<lparr>sr_status = \<lparr>rs_name = repo_name repo, publicUrl = repo_public repo,
                    privateUrl = repo_private repo, pulled = False, pulledAt = None,
                    branches = [], tags = [],
                    rs_error = Some ''Not pulled yet. Run 'repo-sync pull' first.''\<rparr>,
      canPush = False, hasChanges = False, errors = [''Not pulled yet'']\<rparr>"

text \<open>A file system none of whose calls throws.\<close>

definition fsReturns :: "'s node \<Rightarrow> bool" where
  "fsReturns nd \<longleftrightarrow>
     (\<forall>path s. fst (mkdirSync nd path s) = None)
     \<and> (\<forall>path content s. fst (writeFileSync nd path content s) = None)
     \<and> (\<forall>path s. \<exists>content. readFileSync nd path s = Inr content)
     \<and> (\<forall>path s. fst (rmSync nd path s) = None)"

subsection \<open>Sample repositories\<close>

text \<open>
  A repository without and one with \<open>markSource\<close>. \<open>gitMirror\<close> is a pulled mirror with
  the branch \<open>main\<close> at \<open>b2\<close> and the private remote's \<open>main\<close> at \<open>a1\<close>; ancestry, counts
  and tags are left to its argument. \<open>gitOk\<close> lets every command succeed, \<open>gitNoClone\<close>
  only the check of the mirror and the query for the default branch. In \<open>readmeDir\<close>
  every command succeeds and the README that \<^verbatim>\<open>existsSync\<close> finds is a directory, which
  \<^verbatim>\<open>readFileSync\<close> refuses to read.
\<close>

definition repoPlain :: RepoConfig where
  "repoPlain = \<lparr>repo_name = ''lib'', repo_public = ''https://example.org/lib.git'',
                 repo_private = ''git@mirror:lib.git'', markSource = None\<rparr>"


definition gitMirror :: "(string \<Rightarrow> proc) \<Rightarrow> string \<Rightarrow> proc" where
  "gitMirror ancestry command =
     (if command = ''git rev-parse --git-dir'' then Returned (Some ''.'')
      else if command = ''git fetch private'' then Returned (Some [])
      else if command
                = ''git for-each-ref --format='%(refname:short) %(objectname)' refs/heads/''
      then Returned (Some (''main b2'' @ [CHR 0x0A]))
      else if command
                = ''git for-each-ref --format='%(refname) %(objectname)' refs/remotes/private/''
      then Returned (Some (''refs/remotes/private/main a1'' @ [CHR 0x0A]))
      else if command = ''git push --mirror private'' then Returned None
      else ancestry command)"




section \<open>Properties\<close>

subsection \<open>Decimal numbers\<close>

lemma isDigit_char_of: "(d::nat) < 10 \<Longrightarrow> isDigit (char_of (48 + d))"
  by (simp add: isDigit_def)

lemma digitVal_char_of: "(d::nat) < 10 \<Longrightarrow> digitVal (char_of (48 + d)) = int d"
  by (simp add: digitVal_def)

lemma not_isSpace_digit: "isDigit c \<Longrightarrow> \<not> isSpace c"
  by (auto simp: isDigit_def isSpace_def)

lemma not_sign_digit: "isDigit c \<Longrightarrow> c \<noteq> CHR ''-'' \<and> c \<noteq> CHR ''+''"
  by (auto simp: isDigit_def)

lemma decimal_digits: "\<forall>c \<in> set (decimal n). isDigit c"
proof (induction n rule: decimal.induct)
  case (1 n)
  show ?case
  proof (cases "n < 10")
    case True
    then show ?thesis by (simp add: decimal.simps[of n] isDigit_char_of)
  next
    case False
    then show ?thesis using 1 by (simp add: decimal.simps[of n] isDigit_char_of)
  qed
qed

lemma decimal_nonempty: "decimal n \<noteq> []"
  by (simp add: decimal.simps[of n])

lemma digitsValue_snoc: "digitsValue (ds @ [c]) = 10 * digitsValue ds + digitVal c"
  by (simp add: digitsValue_def)

lemma digitsValue_decimal: "digitsValue (decimal n) = int n"
proof (induction n rule: decimal.induct)
  case (1 n)
  show ?case
  proof (cases "n < 10")
    case True
    then show ?thesis by (simp add: decimal.simps[of n] digitsValue_def digitVal_char_of)
  next
    case False
    then have "digitsValue (decimal n) = 10 * int (n div 10) + int (n mod 10)"
      using 1 by (simp add: decimal.simps[of n] digitsValue_snoc digitVal_char_of)
    moreover have "int n = int (10 * (n div 10) + n mod 10)" by simp
    ultimately show ?thesis by (simp only: of_nat_add of_nat_mult of_nat_numeral)
  qed
qed

lemma hd_decimal_digit: "isDigit (hd (decimal n))"
  using decimal_digits[of n] decimal_nonempty[of n] by (cases "decimal n") auto

lemma last_decimal_digit: "isDigit (last (decimal n))"
  using decimal_digits[of n] decimal_nonempty[of n] last_in_set by blast

lemma dropWhile_decimal: "dropWhile isSpace (decimal n @ xs) = decimal n @ xs"
  using hd_decimal_digit[of n] decimal_nonempty[of n] not_isSpace_digit
  by (cases "decimal n") auto

lemma trim_decimal_nl: "trim (decimal n @ [CHR 0x0A]) = decimal n"
proof -
  have a: "isSpace (CHR 0x0A)" by (simp add: isSpace_def)
  have "rev (decimal n) \<noteq> []" using decimal_nonempty by simp
  moreover have "\<not> isSpace (hd (rev (decimal n)))"
    using last_decimal_digit[of n] decimal_nonempty[of n] not_isSpace_digit
    by (simp add: hd_rev)
  ultimately have b: "dropWhile isSpace (rev (decimal n)) = rev (decimal n)"
    by (cases "rev (decimal n)") auto
  show ?thesis by (simp add: trim_def dropWhile_decimal a b)
qed

lemma nearestDouble_small: "n < 2 ^ 53 \<Longrightarrow> nearestDouble n = Some n"
  by (simp add: nearestDouble_def)

lemma parseInt10_decimal:
  assumes "n < 2 ^ 53"
  shows "parseInt10 (decimal n) = Some (Num (int n))"
proof -
  have d: "dropWhile isSpace (decimal n) = decimal n"
    using dropWhile_decimal[of n "[]"] by simp
  have t: "takeWhile isDigit (decimal n) = decimal n"
    using decimal_digits by (simp add: takeWhile_eq_all_conv)
  show ?thesis
    using not_sign_digit[OF hd_decimal_digit[of n]] decimal_nonempty[of n]
    by (simp add: parseInt10_def Let_def d t digitsValue_decimal nearestDouble_small[OF assms])
qed

text \<open>Above \<open>2^53\<close> the digits are rounded: \<open>2^53 + 1\<close> is read as \<open>2^53\<close>, \<open>2^53 + 3\<close> as
  \<open>2^53 + 4\<close>.\<close>

lemma nearestDouble_rounds:
  "nearestDouble 9007199254740993 = Some 9007199254740992"
  "nearestDouble 9007199254740995 = Some 9007199254740996"
proof -
  have "bitLength 9007199254740993 = 54" "bitLength 9007199254740995 = 54"
    by (simp_all add: bitLength.simps)
  then show "nearestDouble 9007199254740993 = Some 9007199254740992"
    "nearestDouble 9007199254740995 = Some 9007199254740996"
    by (simp_all add: nearestDouble_def Let_def)
qed

lemma parseInt10_rounds:
  "parseInt10 ''9007199254740993'' = Some (Num 9007199254740992)"
  "parseInt10 ''9007199254740995'' = Some (Num 9007199254740996)"
proof -
  have "digitsValue ''9007199254740993'' = 9007199254740993"
    "digitsValue ''9007199254740995'' = 9007199254740995"
    by (simp_all add: digitsValue_def digitVal_def)
  then show "parseInt10 ''9007199254740993'' = Some (Num 9007199254740992)"
    "parseInt10 ''9007199254740995'' = Some (Num 9007199254740996)"
    by (simp_all add: parseInt10_def Let_def isSpace_def isDigit_def nearestDouble_rounds)
qed

lemma strict_ancestor_one_way:
  assumes "acyclic G" "is_ancestor G a d" "a \<noteq> d"
  shows "\<not> is_ancestor G d a"
proof
  assume "is_ancestor G d a"
  then have "(a, d) \<in> G\<^sup>*" by (simp add: is_ancestor_def)
  moreover have "(d, a) \<in> G\<^sup>+" using assms(2,3) by (auto simp: is_ancestor_def dest: rtranclD)
  ultimately have "(d, d) \<in> G\<^sup>+" by (rule trancl_rtrancl_trancl[rotated])
  then show False using assms(1) by (simp add: acyclic_def)
qed

lemma finite_ancestors:
  assumes "finite G" shows "finite {c. is_ancestor G c d}"
proof -
  have "c \<in> insert d (Range G)" if "(d, c) \<in> G\<^sup>*" for c
    using that by (induct rule: rtrancl_induct) auto
  then have "{c. is_ancestor G c d} \<subseteq> insert d (Range G)"
    by (auto simp: is_ancestor_def)
  moreover have "finite (insert d (Range G))" using assms by (simp add: finite_Range)
  ultimately show ?thesis by (rule finite_subset)
qed

lemma exclusive_count_pos:
  assumes "finite G" "acyclic G" "is_ancestor G a d" "a \<noteq> d"
  shows "1 \<le> exclusive_count G a d"
proof -
  let ?S = "{c. is_ancestor G c d \<and> \<not> is_ancestor G c a}"
  have "?S \<subseteq> {c. is_ancestor G c d}" by auto
  then have fin: "finite ?S" using finite_ancestors[OF assms(1)] by (rule finite_subset)
  have "is_ancestor G d d" by (simp add: is_ancestor_def)
  then have "d \<in> ?S" using strict_ancestor_one_way[OF assms(2,3,4)] by simp
  then have "card ?S \<noteq> 0" using fin by auto
  then show ?thesis by (simp add: exclusive_count_def)
qed

lemma isAncestor_execSync:
  assumes "execSync nd (''git merge-base --is-ancestor '' @ a @ '' '' @ d) (Some p) True (sys w) = (r, s')"
  shows "\<exists>w'. isAncestor nd p a d w = (returned r, w') \<and> sys w' = s'"
  using assms by (auto simp: isAncestor_def exec_def returned_def split: proc.splits)

lemma getCommitCount_execSync:
  assumes "execSync nd (''git rev-list --count '' @ a @ ''..'' @ d) (Some p) True (sys w) = (r, s')"
  shows "\<exists>w'. getCommitCount nd p a d w = (countOf r, w') \<and> sys w' = s'"
  using assms by (auto simp: getCommitCount_def exec_def countOf_def split: proc.splits)

lemma orNull_Some_in: "orNull (map_of R n) = Some ps \<Longrightarrow> ps \<in> snd ` set R"
proof -
  assume "orNull (map_of R n) = Some ps"
  then have "map_of R n = Some ps" by (simp add: orNull_def split: option.splits if_splits)
  then have "(n, ps) \<in> set R" by (rule map_of_SomeD)
  then show ?thesis by force
qed

lemma checkLocalRefs_differ:
  assumes Some: "orNull (map_of R n) = Some ps" and False: "l \<noteq> ps"
   and w1:  "isAncestor nd p l ps w = (returned (mb l ps), w1)" "sys w1 = s"
   and w2: "isAncestor nd p ps l w1 = (returned (mb ps l), w2)" "sys w2 = s"
   and w3: "getCommitCount nd p ps l w2 = (countOf (rl ps l), w3)" "sys w3 = s"
   and   w4: "getCommitCount nd p l ps w2 = (countOf (rl l ps), w4)" "sys w4 = s"
  shows "\<exists>w'. checkLocalRefs nd p R ((n, l) # L) acc w
              = checkLocalRefs nd p R L (pushTarget n (localEntry mb rl R (n, l)) acc) w'
            \<and> sys w' = s"
proof (cases "returned (mb ps l)")
  case True
  then show ?thesis using Some False w1 w2 w3
    by (intro exI[of _ w3]) (simp add: localEntry_def mkRef_def)
next
  case nA: False
  show ?thesis
  proof (cases "returned (mb l ps)")
    case True
    then show ?thesis using nA Some False w1 w2 w4
      by (intro exI[of _ w4]) (simp add: localEntry_def mkRef_def)
  next
    case nB: False
    then show ?thesis using nA Some False w1 w2 
      by (intro exI[of _ w2]) (simp add: localEntry_def mkRef_def)
  qed
qed

lemma checkLocalRefs_step:
  assumes g: "git_reports nd p s ids mb rl"
    and R: "snd ` set R \<subseteq> ids" and w: "sys w = s" and l: "l \<in> ids"
  shows "\<exists>w'. checkLocalRefs nd p R ((n, l) # L) acc w
              = checkLocalRefs nd p R L (pushTarget n (localEntry mb rl R (n, l)) acc) w'
            \<and> sys w' = s"
proof (cases "orNull (map_of R n)")
  case None
  then show ?thesis using w by (intro exI[of _ w]) (simp add: localEntry_def mkRef_def)
next
  case (Some ps)
  have ps: "ps \<in> ids" using orNull_Some_in[OF Some] R by auto
  show ?thesis
  proof (cases "l = ps")
    case True
    then show ?thesis using Some w by (intro exI[of _ w]) (simp add: localEntry_def mkRef_def)
  next
    case False
    have q1: "execSync nd (''git merge-base --is-ancestor '' @ l @ '' '' @ ps) (Some p) True (sys w) = (mb l ps, s)"
      using g l ps w by (simp add: git_reports_def)
    from isAncestor_execSync[OF q1] obtain w1 where
      w1: "isAncestor nd p l ps w = (returned (mb l ps), w1)" "sys w1 = s" by blast
    have q2: "execSync nd (''git merge-base --is-ancestor '' @ ps @ '' '' @ l) (Some p) True (sys w1) = (mb ps l, s)"
      using g l ps w1(2) by (simp add: git_reports_def)
    from isAncestor_execSync[OF q2] obtain w2 where
      w2: "isAncestor nd p ps l w1 = (returned (mb ps l), w2)" "sys w2 = s" by blast
    have q3: "execSync nd (''git rev-list --count '' @ ps @ ''..'' @ l) (Some p) True (sys w2) = (rl ps l, s)"
      using g l ps w2(2) by (simp add: git_reports_def)
    have q4: "execSync nd (''git rev-list --count '' @ l @ ''..'' @ ps) (Some p) True (sys w2) = (rl l ps, s)"
      using g l ps w2(2) by (simp add: git_reports_def)
    from getCommitCount_execSync[OF q3] obtain w3 where
      w3: "getCommitCount nd p ps l w2 = (countOf (rl ps l), w3)" "sys w3 = s" by blast
    from getCommitCount_execSync[OF q4] obtain w4 where
      w4: "getCommitCount nd p l ps w2 = (countOf (rl l ps), w4)" "sys w4 = s" by blast
    show ?thesis
      by (rule checkLocalRefs_differ[OF Some False w1 w2 w3 w4])
  qed
qed

lemma checkLocalRefs_reports:
  assumes g: "git_reports nd p s ids mb rl"
    and R: "snd ` set R \<subseteq> ids"
  shows "sys w = s \<Longrightarrow> snd ` set L \<subseteq> ids \<Longrightarrow>
         fst (checkLocalRefs nd p R L acc w)
           = foldl (\<lambda>acc e. pushTarget (fst e) (localEntry mb rl R e) acc) acc L
         \<and> sys (snd (checkLocalRefs nd p R L acc w)) = s"
proof (induction L arbitrary: acc w)
  case Nil
  then show ?case by simp
next
  case (Cons e L)
  obtain n l where e: "e = (n, l)" by (cases e)
  have l: "l \<in> ids" and L: "snd ` set L \<subseteq> ids" using Cons.prems(2) e by auto
  from checkLocalRefs_step[OF g R Cons.prems(1) l, of n L acc] obtain w' where
    w': "checkLocalRefs nd p R ((n, l) # L) acc w
           = checkLocalRefs nd p R L (pushTarget n (localEntry mb rl R (n, l)) acc) w'"
      "sys w' = s" by blast
  show ?case unfolding e w'(1) using Cons.IH[OF w'(2) L] by simp
qed

lemma foldl_pushTarget:
  "foldl (\<lambda>acc e. pushTarget (fst e) (f e) acc) acc es
     = (fst acc @ map f (filter (\<lambda>e. \<not> isTag (fst e)) es),
        snd acc @ map f (filter (\<lambda>e. isTag (fst e)) es))"
  by (induction es arbitrary: acc) (simp_all add: pushTarget_def isTag_def)

lemma checkPrivateRefs_eq:
  "checkPrivateRefs L R acc
     = (fst acc @ map missingEntry (filter (\<lambda>e. \<not> isTag (fst e) \<and> fst e \<notin> fst ` set L) R),
        snd acc @ map missingEntry (filter (\<lambda>e. isTag (fst e) \<and> fst e \<notin> fst ` set L) R))"
proof (induction R arbitrary: acc)
  case Nil
  then show ?case by simp
next
  case (Cons e R)
  obtain n ps where e: "e = (n, ps)" by (cases e)
  show ?case unfolding e
    by (simp add: Cons.IH pushTarget_def isTag_def missingEntry_def mkRef_def)
qed

lemma compareRefs_reports:
  assumes g: "git_reports nd p (sys w) ids mb rl"
    and L: "snd ` set L \<subseteq> ids" and R: "snd ` set R \<subseteq> ids"
  shows "fst (compareRefs nd p L R w)
           = (map (localEntry mb rl R) (filter (\<lambda>e. \<not> isTag (fst e)) L)
                @ map missingEntry (filter (\<lambda>e. \<not> isTag (fst e) \<and> fst e \<notin> fst ` set L) R),
              map (localEntry mb rl R) (filter (\<lambda>e. isTag (fst e)) L)
                @ map missingEntry (filter (\<lambda>e. isTag (fst e) \<and> fst e \<notin> fst ` set L) R))"
    and "sys (snd (compareRefs nd p L R w)) = sys w"
proof -
  obtain acc w' where c: "checkLocalRefs nd p R L ([], []) w = (acc, w')"
    by (cases "checkLocalRefs nd p R L ([], []) w")
  from checkLocalRefs_reports[OF g R refl L, of "([], [])"] c
  have acc: "acc = foldl (\<lambda>acc e. pushTarget (fst e) (localEntry mb rl R e) acc) ([], []) L"
    and w': "sys w' = sys w" by simp_all
  show "fst (compareRefs nd p L R w)
           = (map (localEntry mb rl R) (filter (\<lambda>e. \<not> isTag (fst e)) L)
                @ map missingEntry (filter (\<lambda>e. \<not> isTag (fst e) \<and> fst e \<notin> fst ` set L) R),
              map (localEntry mb rl R) (filter (\<lambda>e. isTag (fst e)) L)
                @ map missingEntry (filter (\<lambda>e. isTag (fst e) \<and> fst e \<notin> fst ` set L) R))"
    by (simp add: compareRefs_def c acc foldl_pushTarget checkPrivateRefs_eq)
  show "sys (snd (compareRefs nd p L R w)) = sys w"
    by (simp add: compareRefs_def c w')
qed

lemma queries_pure_reports:
  "queries_pure nd p s ids \<Longrightarrow> git_reports nd p s ids (mbAnswer nd p s) (rlAnswer nd p s)"
  unfolding queries_pure_def git_reports_def mbAnswer_def rlAnswer_def
  by (metis prod.collapse)

lemma refNames_distinct:
  "distinct (map fst L) \<Longrightarrow> distinct (map fst R) \<Longrightarrow> distinct (refNames L R)"
  by (auto simp: refNames_def distinct_map_filter)

lemma refNames_set: "set (refNames L R) = fst ` set L \<union> fst ` set R"
  by (auto simp: refNames_def)

lemma refNames_filter:
  "filter P (refNames L R)
     = map fst (filter (\<lambda>e. P (fst e)) L)
         @ map fst (filter (\<lambda>e. P (fst e) \<and> fst e \<notin> fst ` set L) R)"
  by (simp add: refNames_def filter_map comp_def conj_commute)

lemma list_all2_map_same:
  "(\<And>x. x \<in> set xs \<Longrightarrow> P (f x) (g x)) \<Longrightarrow> list_all2 P (map f xs) (map g xs)"
  by (simp add: list_all2_map1 list_all2_map2 list_all2_same)

lemma localEntry_status_claim:
  assumes t: "\<forall>a \<in> ids. \<forall>d \<in> ids. returned (mb a d) = is_ancestor G a d"
    and ac: "acyclic G"
    and dL: "distinct (map fst L)" and dR: "distinct (map fst R)"
    and ne: "[] \<notin> snd ` set R"
    and L: "snd ` set L \<subseteq> ids" and R: "snd ` set R \<subseteq> ids"
    and e: "e \<in> set L"
  shows "status_claim G (map_of L) (map_of R) (fst e) (ref_status (localEntry mb rl R e))"
proof -
  obtain n l where nl: "e = (n, l)" by (cases e)
  have src: "map_of L n = Some l" using dL e nl by simp
  have l: "l \<in> ids" using L e nl by force
  show ?thesis
  proof (cases "map_of R n")
    case None
    then show ?thesis using src nl
      by (simp add: status_claim_def localEntry_def orNull_def mkRef_def)
  next
    case (Some ps)
    then have "(n, ps) \<in> set R" by (rule map_of_SomeD)
    then have "ps \<in> snd ` set R" by force
    then have ps: "ps \<in> ids" "ps \<noteq> []" using R ne by blast+
    have o: "orNull (map_of R n) = Some ps" using Some ps(2) by (simp add: orNull_def)
    show ?thesis
    proof (cases "l = ps")
      case True
      then show ?thesis using src Some o nl
        by (simp add: status_claim_def localEntry_def mkRef_def)
    next
      case False
      have a1: "returned (mb ps l) = is_ancestor G ps l" and a2: "returned (mb l ps) = is_ancestor G l ps"
        using t l ps(1) by simp_all
      have ex: "is_ancestor G ps l \<Longrightarrow> \<not> is_ancestor G l ps"
        using strict_ancestor_one_way[OF ac, of ps l] False by auto
      show ?thesis using src Some o nl False a1 a2 ex
        by (auto simp: status_claim_def localEntry_def mkRef_def)
    qed
  qed
qed

lemma missingEntry_status_claim:
  assumes dR: "distinct (map fst R)" and e: "e \<in> set R" and n: "fst e \<notin> fst ` set L"
  shows "status_claim G (map_of L) (map_of R) (fst e) (ref_status (missingEntry e))"
proof -
  obtain k ps where kp: "e = (k, ps)" by (cases e)
  have "map_of R k = Some ps" using dR e kp by simp
  moreover have "map_of L k = None" using n kp by (simp add: map_of_eq_None_iff)
  ultimately show ?thesis using kp
    by (simp add: status_claim_def missingEntry_def mkRef_def)
qed

subsection \<open>The sample history\<close>

lemma single_edge_rtrancl: "((x, y) \<in> {(u, v)}\<^sup>*) = (x = y \<or> (x = u \<and> y = v))"
proof
  assume "(x, y) \<in> {(u, v)}\<^sup>*"
  then show "x = y \<or> (x = u \<and> y = v)"
    by (induct rule: rtrancl_induct) auto
next
  assume "x = y \<or> (x = u \<and> y = v)"
  then show "(x, y) \<in> {(u, v)}\<^sup>*" by auto
qed

lemma is_ancestor_history3:
  "is_ancestor history3 a d = (a = d \<or> (d = ''b2'' \<and> a = ''a1''))"
  by (auto simp add: is_ancestor_def history3_def single_edge_rtrancl)

lemma acyclic_history3: "acyclic history3"
proof -
  have "acyclic ({} :: (string \<times> string) set)" by (simp add: acyclic_def)
  then show ?thesis by (simp add: history3_def acyclic_insert)
qed

lemma scripted_pure: "queries_pure (scripted answer present) p s ids"
  by (simp add: queries_pure_def scripted_def)

lemma ids3: "snd ` set local3 \<union> snd ` set private3 = {''a1'', ''b2'', ''c3''}"
  by (auto simp: local3_def private3_def)

lemma git3_truthful:
  "ancestry_truthful (scripted git3 present) p s history3 {''a1'', ''b2'', ''c3''}"
  by (simp add: ancestry_truthful_def scripted_def git3_def returned_def is_ancestor_history3)


lemma run3:
  "map ref_status (fst (fst (compareRefs (scripted git3 present) ''/r'' local3 private3 start)))
     = [Ahead, Behind, Diverged, New, Missing]"
  by (simp add: compareRefs_def local3_def private3_def start_def orNull_def
      isAncestor_def getCommitCount_def exec_def scripted_def git3_def pushTarget_def
      refType_def shortName_def at_index_def trim_def isSpace_def parseInt10_def
      isDigit_def digitsValue_def digitVal_def Let_def nearestDouble_small)

lemma run3t:
  "map ref_status (snd (fst (compareRefs (scripted git3 present) ''/r'' local3 private3 start)))
     = [Same]"
  by (simp add: compareRefs_def local3_def private3_def start_def orNull_def
      isAncestor_def getCommitCount_def exec_def scripted_def git3_def pushTarget_def
      refType_def shortName_def at_index_def trim_def isSpace_def parseInt10_def
      isDigit_def digitsValue_def digitVal_def Let_def nearestDouble_small)

subsection \<open>The classification of compareRefs\<close>

text \<open>
  Claim C1. For two inventories, \<^const>\<open>compareRefs\<close> emits one record for every qualified
  name of either inventory: the names in \<^const>\<open>refNames\<close> are distinct and are those of the
  two inventories, and the records of \<^verbatim>\<open>branches\<close> and of \<^verbatim>\<open>tags\<close> stand one to one, in
  order, against the names that go to each array. The status of each record is the one
  the claim determines: new when the destination lacks the name, same for equal commits,
  ahead when the destination commit is an ancestor of the differing source commit, behind
  when the source commit is an ancestor of the differing destination commit, diverged when
  neither is, missing when only the destination has the name. The inventories are maps
  (distinct keys), the destination's commit identifiers are not empty, and git answers the
  ancestry query truthfully about an acyclic history without changing the repository.
\<close>

theorem compareRefs_classifies:
  assumes pure: "queries_pure nd repoPath (sys w) (snd ` set localRefs \<union> snd ` set privateRefs)"
    and truthful: "ancestry_truthful nd repoPath (sys w) G
                     (snd ` set localRefs \<union> snd ` set privateRefs)"
    and ac: "acyclic G"
    and dL: "distinct (map fst localRefs)" and dR: "distinct (map fst privateRefs)"
    and ne: "[] \<notin> snd ` set privateRefs"
    and run: "compareRefs nd repoPath localRefs privateRefs w = ((bs, ts), w')"
  shows "distinct (refNames localRefs privateRefs)
       \<and> set (refNames localRefs privateRefs) = fst ` set localRefs \<union> fst ` set privateRefs
       \<and> list_all2 (\<lambda>n r. status_claim G (map_of localRefs) (map_of privateRefs) n (ref_status r))
            (filter (\<lambda>n. \<not> isTag n) (refNames localRefs privateRefs)) bs
       \<and> list_all2 (\<lambda>n r. status_claim G (map_of localRefs) (map_of privateRefs) n (ref_status r))
            (filter isTag (refNames localRefs privateRefs)) ts"
proof -
  let ?ids = "snd ` set localRefs \<union> snd ` set privateRefs"
  let ?mb = "mbAnswer nd repoPath (sys w)" and ?rl = "rlAnswer nd repoPath (sys w)"
  let ?Q = "\<lambda>n r. status_claim G (map_of localRefs) (map_of privateRefs) n (ref_status r)"
  have g: "git_reports nd repoPath (sys w) ?ids ?mb ?rl"
    using pure by (rule queries_pure_reports)
  have t: "\<forall>a \<in> ?ids. \<forall>d \<in> ?ids. returned (?mb a d) = is_ancestor G a d"
    using truthful by (simp add: ancestry_truthful_def mbAnswer_def)
  have sub: "snd ` set localRefs \<subseteq> ?ids" "snd ` set privateRefs \<subseteq> ?ids" by auto
  from compareRefs_reports(1)[OF g sub] run
  have bs: "bs = map (localEntry ?mb ?rl privateRefs) (filter (\<lambda>e. \<not> isTag (fst e)) localRefs)
                @ map missingEntry
                    (filter (\<lambda>e. \<not> isTag (fst e) \<and> fst e \<notin> fst ` set localRefs) privateRefs)"
    and ts: "ts = map (localEntry ?mb ?rl privateRefs) (filter (\<lambda>e. isTag (fst e)) localRefs)
                @ map missingEntry
                    (filter (\<lambda>e. isTag (fst e) \<and> fst e \<notin> fst ` set localRefs) privateRefs)"
    by simp_all
  have loc: "?Q (fst e) (localEntry ?mb ?rl privateRefs e)" if "e \<in> set localRefs" for e
    using localEntry_status_claim[OF t ac dL dR ne sub that] .
  have mis: "?Q (fst e) (missingEntry e)"
    if "e \<in> set privateRefs" "fst e \<notin> fst ` set localRefs" for e
    using missingEntry_status_claim[OF dR that] .
  have b: "list_all2 ?Q (filter (\<lambda>n. \<not> isTag n) (refNames localRefs privateRefs)) bs"
    unfolding bs refNames_filter
    by (intro list_all2_appendI list_all2_map_same) (auto intro: loc mis)
  have c: "list_all2 ?Q (filter isTag (refNames localRefs privateRefs)) ts"
    unfolding ts refNames_filter
    by (intro list_all2_appendI list_all2_map_same) (auto intro: loc mis)
  show ?thesis using refNames_distinct[OF dL dR] refNames_set b c by simp
qed

theorem compareRefs_classifies_witness:
  "list_all2 (\<lambda>n r. status_claim history3 (map_of local3) (map_of private3) n (ref_status r))
     [''heads/main'', ''heads/old'', ''heads/x'', ''heads/new'', ''heads/gone'']
     (fst (fst (compareRefs (scripted git3 (\<lambda>p. True)) ''/r'' local3 private3 start)))
   \<and> map ref_status (fst (fst (compareRefs (scripted git3 (\<lambda>p. True)) ''/r'' local3 private3 start)))
       = [Ahead, Behind, Diverged, New, Missing]
   \<and> map ref_status (snd (fst (compareRefs (scripted git3 (\<lambda>p. True)) ''/r'' local3 private3 start)))
       = [Same]"
proof -
  let ?nd = "scripted git3 (\<lambda>p. True)"
  obtain bs ts w' where run: "compareRefs ?nd ''/r'' local3 private3 start = ((bs, ts), w')"
    by (metis prod.collapse)
  have pure: "queries_pure ?nd ''/r'' (sys start) (snd ` set local3 \<union> snd ` set private3)"
    by (rule scripted_pure)
  have tr: "ancestry_truthful ?nd ''/r'' (sys start) history3
              (snd ` set local3 \<union> snd ` set private3)"
    unfolding ids3 by (rule git3_truthful)
  have d: "distinct (map fst local3)" "distinct (map fst private3)"
    "[] \<notin> snd ` set private3"
    by (simp_all add: local3_def private3_def)
  have names: "filter (\<lambda>n. \<not> isTag n) (refNames local3 private3)
                 = [''heads/main'', ''heads/old'', ''heads/x'', ''heads/new'', ''heads/gone'']"
    by (simp add: refNames_def local3_def private3_def isTag_def refType_def)
  from compareRefs_classifies[OF pure tr acyclic_history3 d run]
  have "list_all2 (\<lambda>n r. status_claim history3 (map_of local3) (map_of private3) n (ref_status r))
          (filter (\<lambda>n. \<not> isTag n) (refNames local3 private3)) bs" by simp
  then show ?thesis using run3[of "\<lambda>p. True"] run3t[of "\<lambda>p. True"] run names by simp
qed

subsection \<open>Counts\<close>

lemma countOf_decimal:
  "n < 2 ^ 53 \<Longrightarrow> countOf (Returned (Some (decimal n @ [CHR 0x0A]))) = Num (int n)"
  by (simp add: countOf_def trim_decimal_nl parseInt10_decimal)

lemma localEntry_counts:
  assumes t: "\<forall>a \<in> ids. \<forall>d \<in> ids. returned (mb a d) = is_ancestor G a d"
    and c: "\<forall>a \<in> ids. \<forall>d \<in> ids.
              rl a d = Returned (Some (decimal (exclusive_count G a d) @ [CHR 0x0A]))"
    and ac: "acyclic G" and fin: "finite G"
    and small: "\<forall>a \<in> ids. \<forall>d \<in> ids. exclusive_count G a d < 2 ^ 53"
    and L: "snd ` set L \<subseteq> ids" and R: "snd ` set R \<subseteq> ids"
    and e: "e \<in> set L" and r: "r = localEntry mb rl R e"
  shows "(aheadCount r \<noteq> None \<longleftrightarrow> ref_status r = Ahead)
       \<and> (behindCount r \<noteq> None \<longleftrightarrow> ref_status r = Behind)
       \<and> (ref_status r = Ahead \<longrightarrow>
            (\<exists>l p. localRef r = Some l \<and> privateRef r = Some p \<and> l \<noteq> p \<and> is_ancestor G p l
                 \<and> aheadCount r = Some (Num (int (exclusive_count G p l)))
                 \<and> 1 \<le> exclusive_count G p l))
       \<and> (ref_status r = Behind \<longrightarrow>
            (\<exists>l p. localRef r = Some l \<and> privateRef r = Some p \<and> l \<noteq> p \<and> is_ancestor G l p
                 \<and> behindCount r = Some (Num (int (exclusive_count G l p)))
                 \<and> 1 \<le> exclusive_count G l p))"
proof (cases "orNull (map_of R (fst e))")
  case None
  then show ?thesis using r by (simp add: localEntry_def mkRef_def)
next
  case (Some ps)
  have ps: "ps \<in> ids" using orNull_Some_in[OF Some] R by auto
  have l: "snd e \<in> ids" using L e by auto
  show ?thesis
  proof (cases "snd e = ps")
    case True
    then show ?thesis using r Some by (simp add: localEntry_def mkRef_def)
  next
    case False
    have a1: "returned (mb ps (snd e)) = is_ancestor G ps (snd e)"
      and a2: "returned (mb (snd e) ps) = is_ancestor G (snd e) ps"
      using t l ps by simp_all
    have c1: "countOf (rl ps (snd e)) = Num (int (exclusive_count G ps (snd e)))"
      and c2: "countOf (rl (snd e) ps) = Num (int (exclusive_count G (snd e) ps))"
      using c l ps small by (simp_all add: countOf_decimal)
    have p1: "is_ancestor G ps (snd e) \<Longrightarrow> 1 \<le> exclusive_count G ps (snd e)"
      using exclusive_count_pos[OF fin ac, of ps "snd e"] False by auto
    have p2: "is_ancestor G (snd e) ps \<Longrightarrow> 1 \<le> exclusive_count G (snd e) ps"
      using exclusive_count_pos[OF fin ac, of "snd e" ps] False by auto
    show ?thesis using r Some False a1 a2 c1 c2 p1 p2
      by (simp add: localEntry_def mkRef_def)
  qed
qed

lemma ancestors_history3:
  "{c. is_ancestor history3 c d} = (if d = ''b2'' then {''a1'', ''b2''} else {d})"
  by (auto simp: is_ancestor_history3)

lemma exclusive_count_diff:
  "exclusive_count G lower higher = card ({c. is_ancestor G c higher} - {c. is_ancestor G c lower})"
  by (simp add: exclusive_count_def set_diff_eq)

lemma exclusive_count_history3:
  "exclusive_count history3 ''a1'' ''b2'' = 1"
  "exclusive_count history3 ''b2'' ''a1'' = 0"
  "exclusive_count history3 ''a1'' ''a1'' = 0"
  "exclusive_count history3 ''b2'' ''b2'' = 0"
  by (simp_all add: exclusive_count_diff ancestors_history3)

lemma decimal_small: "decimal 0 = ''0''" "decimal 1 = ''1''" "decimal (Suc 0) = ''1''"
  by code_simp+

lemma finite_history3: "finite history3"
  by (simp add: history3_def)

lemma git3_counts:
  "count_truthful (scripted git3 present) p s history3 {''a1'', ''b2''}"
  by (simp add: count_truthful_def scripted_def git3_def exclusive_count_history3 decimal_small)

lemma git3_truthful2:
  "ancestry_truthful (scripted git3 present) p s history3 {''a1'', ''b2''}"
  by (simp add: ancestry_truthful_def scripted_def git3_def returned_def is_ancestor_history3)

lemma ids1: "snd ` set local1 \<union> snd ` set private1 = {''a1'', ''b2''}"
  by (auto simp: local1_def private1_def)

lemma run1:
  "fst (compareRefs (scripted git3 present) ''/r'' local1 private1 start)
     = ([\<lparr>ref_name = Some ''main'', localRef = Some ''b2'', privateRef = Some ''a1'',
          ref_status = Ahead, aheadCount = Some (Num 1), behindCount = None\<rparr>], [])"
  by (simp add: compareRefs_def local1_def private1_def start_def orNull_def
      isAncestor_def getCommitCount_def exec_def scripted_def git3_def pushTarget_def
      refType_def shortName_def at_index_def trim_def isSpace_def parseInt10_def
      isDigit_def digitsValue_def digitVal_def Let_def nearestDouble_small)

text \<open>
  Claim C5. With git answering the ancestry and the count query truthfully about a finite
  acyclic history whose exclusive counts are below \<open>2^53\<close> (up to there a JavaScript number
  holds every integer), a record of a comparison carries \<open>aheadCount\<close> exactly when its status
  is ahead and \<open>behindCount\<close> exactly when its status is behind. The count of an ahead
  record is the number of commits reachable from the source commit and not from the
  destination commit, the count of a behind record the number reachable from the
  destination commit and not from the source commit. In both cases the lower commit is a
  strict ancestor of the higher one and the count is at least 1.
\<close>

theorem compareRefs_counts:
  assumes pure: "queries_pure nd repoPath (sys w) (snd ` set localRefs \<union> snd ` set privateRefs)"
    and truthful: "ancestry_truthful nd repoPath (sys w) G
                     (snd ` set localRefs \<union> snd ` set privateRefs)"
    and counts: "count_truthful nd repoPath (sys w) G
                   (snd ` set localRefs \<union> snd ` set privateRefs)"
    and ac: "acyclic G" and fin: "finite G"
    and small: "\<forall>a \<in> snd ` set localRefs \<union> snd ` set privateRefs.
                \<forall>d \<in> snd ` set localRefs \<union> snd ` set privateRefs.
                  exclusive_count G a d < 2 ^ 53"
    and run: "compareRefs nd repoPath localRefs privateRefs w = ((bs, ts), w')"
    and r: "r \<in> set (bs @ ts)"
  shows "(aheadCount r \<noteq> None \<longleftrightarrow> ref_status r = Ahead)
       \<and> (behindCount r \<noteq> None \<longleftrightarrow> ref_status r = Behind)
       \<and> (ref_status r = Ahead \<longrightarrow>
            (\<exists>l p. localRef r = Some l \<and> privateRef r = Some p \<and> l \<noteq> p \<and> is_ancestor G p l
                 \<and> aheadCount r = Some (Num (int (exclusive_count G p l)))
                 \<and> 1 \<le> exclusive_count G p l))
       \<and> (ref_status r = Behind \<longrightarrow>
            (\<exists>l p. localRef r = Some l \<and> privateRef r = Some p \<and> l \<noteq> p \<and> is_ancestor G l p
                 \<and> behindCount r = Some (Num (int (exclusive_count G l p)))
                 \<and> 1 \<le> exclusive_count G l p))"
proof -
  let ?ids = "snd ` set localRefs \<union> snd ` set privateRefs"
  let ?mb = "mbAnswer nd repoPath (sys w)" and ?rl = "rlAnswer nd repoPath (sys w)"
  have g: "git_reports nd repoPath (sys w) ?ids ?mb ?rl"
    using pure by (rule queries_pure_reports)
  have t: "\<forall>a \<in> ?ids. \<forall>d \<in> ?ids. returned (?mb a d) = is_ancestor G a d"
    using truthful by (simp add: ancestry_truthful_def mbAnswer_def)
  have c: "\<forall>a \<in> ?ids. \<forall>d \<in> ?ids.
             ?rl a d = Returned (Some (decimal (exclusive_count G a d) @ [CHR 0x0A]))"
    using counts by (simp add: count_truthful_def rlAnswer_def)
  have sub: "snd ` set localRefs \<subseteq> ?ids" "snd ` set privateRefs \<subseteq> ?ids" by auto
  from compareRefs_reports(1)[OF g sub] run r
  consider e where "e \<in> set localRefs" "r = localEntry ?mb ?rl privateRefs e"
    | e where "r = missingEntry e"
    by auto
  then show ?thesis
  proof cases
    case 1
    show ?thesis by (rule localEntry_counts[OF t c ac fin small sub 1])
  next
    case 2
    then show ?thesis by (simp add: missingEntry_def mkRef_def)
  qed
qed

theorem compareRefs_counts_witness:
  "fst (compareRefs (scripted git3 (\<lambda>p. True)) ''/r'' local1 private1 start)
     = ([\<lparr>ref_name = Some ''main'', localRef = Some ''b2'', privateRef = Some ''a1'',
          ref_status = Ahead, aheadCount = Some (Num 1), behindCount = None\<rparr>], [])
   \<and> Some (Num 1) = Some (Num (int (exclusive_count history3 ''a1'' ''b2'')))
   \<and> 1 \<le> exclusive_count history3 ''a1'' ''b2''"
proof -
  let ?nd = "scripted git3 (\<lambda>p. True)"
  let ?r = "\<lparr>ref_name = Some ''main'', localRef = Some ''b2'', privateRef = Some ''a1'',
          ref_status = Ahead, aheadCount = Some (Num 1), behindCount = None\<rparr>"
  obtain w' where run: "compareRefs ?nd ''/r'' local1 private1 start = (([?r], []), w')"
    using run1[of "\<lambda>p. True"] by (metis prod.collapse)
  have pure: "queries_pure ?nd ''/r'' (sys start) (snd ` set local1 \<union> snd ` set private1)"
    by (rule scripted_pure)
  have tr: "ancestry_truthful ?nd ''/r'' (sys start) history3
              (snd ` set local1 \<union> snd ` set private1)"
    unfolding ids1 by (rule git3_truthful2)
  have ct: "count_truthful ?nd ''/r'' (sys start) history3
              (snd ` set local1 \<union> snd ` set private1)"
    unfolding ids1 by (rule git3_counts)
  have sm: "\<forall>a \<in> snd ` set local1 \<union> snd ` set private1.
              \<forall>d \<in> snd ` set local1 \<union> snd ` set private1.
                exclusive_count history3 a d < 2 ^ 53"
    unfolding ids1 by (simp add: exclusive_count_history3)
  have "?r \<in> set ([?r] @ [])" by simp
  from compareRefs_counts[OF pure tr ct acyclic_history3 finite_history3 sm run this]
  have "Some (Num 1) = Some (Num (int (exclusive_count history3 ''a1'' ''b2'')))
        \<and> 1 \<le> exclusive_count history3 ''a1'' ''b2''" by simp
  then show ?thesis using run1[of "\<lambda>p. True"] by simp
qed

subsection \<open>Swapping the two sides\<close>

lemma pushTarget_inject: "pushTarget n r ([], []) = pushTarget n r' ([], []) \<Longrightarrow> r = r'"
  by (simp add: pushTarget_def split: if_splits)

lemma compareRefs_single:
  assumes g: "git_reports nd p (sys w) {l, ps} mb rl"
  shows "fst (compareRefs nd p [(n, l)] [(n, ps)] w)
           = pushTarget n (localEntry mb rl [(n, ps)] (n, l)) ([], [])"
proof -
  have sub: "snd ` set [(n, l)] \<subseteq> {l, ps}" "snd ` set [(n, ps)] \<subseteq> {l, ps}" by auto
  show ?thesis
    using compareRefs_reports(1)[OF g sub]
    by (simp add: pushTarget_def isTag_def)
qed

text \<open>
  Claim C9. A reference whose source commit \<open>localSha\<close> and destination commit
  \<open>privateSha\<close> are classified ahead with the count \<open>N\<close> is classified behind with
  \<open>behindCount\<close> \<open>N\<close> once the two commits change sides, git answering the same queries
  as before (truthfully about an acyclic history, the repository unchanged). Commit
  identifiers are not empty.
\<close>

theorem swap_ahead_gives_behind:
  assumes pure: "queries_pure nd repoPath (sys w) {localSha, privateSha}"
    and truthful: "ancestry_truthful nd repoPath (sys w) G {localSha, privateSha}"
    and ac: "acyclic G"
    and ne: "localSha \<noteq> []"
    and run: "fst (compareRefs nd repoPath [(refName, localSha)] [(refName, privateSha)] w)
                = pushTarget refName r ([], [])"
    and ahead: "ref_status r = Ahead" "aheadCount r = Some N"
  shows "\<exists>r'. fst (compareRefs nd repoPath [(refName, privateSha)] [(refName, localSha)] w)
                = pushTarget refName r' ([], [])
             \<and> localRef r' = Some privateSha \<and> privateRef r' = Some localSha
             \<and> ref_status r' = Behind \<and> behindCount r' = Some N \<and> aheadCount r' = None"
proof -
  let ?mb = "mbAnswer nd repoPath (sys w)" and ?rl = "rlAnswer nd repoPath (sys w)"
  have g: "git_reports nd repoPath (sys w) {localSha, privateSha} ?mb ?rl"
    using pure by (rule queries_pure_reports)
  have g': "git_reports nd repoPath (sys w) {privateSha, localSha} ?mb ?rl"
    using g by (simp add: insert_commute)
  have t: "returned (?mb privateSha localSha) = is_ancestor G privateSha localSha"
    "returned (?mb localSha privateSha) = is_ancestor G localSha privateSha"
    using truthful by (simp_all add: ancestry_truthful_def mbAnswer_def)
  have r: "r = localEntry ?mb ?rl [(refName, privateSha)] (refName, localSha)"
    using run compareRefs_single[OF g, of refName] pushTarget_inject by metis
  have facts: "privateSha \<noteq> []" "localSha \<noteq> privateSha" "is_ancestor G privateSha localSha"
    "N = countOf (?rl privateSha localSha)"
    using ahead r t
    by (auto simp: localEntry_def mkRef_def orNull_def split: if_splits)
  have no: "\<not> is_ancestor G localSha privateSha"
    using strict_ancestor_one_way[OF ac facts(3)] facts(2) by auto
  let ?r' = "localEntry ?mb ?rl [(refName, localSha)] (refName, privateSha)"
  have "fst (compareRefs nd repoPath [(refName, privateSha)] [(refName, localSha)] w)
          = pushTarget refName ?r' ([], [])"
    by (rule compareRefs_single[OF g'])
  moreover have "localRef ?r' = Some privateSha \<and> privateRef ?r' = Some localSha
      \<and> ref_status ?r' = Behind \<and> behindCount ?r' = Some N \<and> aheadCount ?r' = None"
    using ne facts no t by (simp add: localEntry_def mkRef_def orNull_def)
  ultimately show ?thesis by blast
qed

theorem swap_ahead_gives_behind_witness:
  "(\<exists>r'. fst (compareRefs (scripted git3 (\<lambda>p. True)) ''/r''
                 [(''heads/main'', ''a1'')] [(''heads/main'', ''b2'')] start)
            = pushTarget ''heads/main'' r' ([], [])
          \<and> localRef r' = Some ''a1'' \<and> privateRef r' = Some ''b2''
          \<and> ref_status r' = Behind \<and> behindCount r' = Some (Num 1) \<and> aheadCount r' = None)
   \<and> fst (compareRefs (scripted git3 (\<lambda>p. True)) ''/r''
            [(''heads/main'', ''b2'')] [(''heads/main'', ''a1'')] start)
       = ([\<lparr>ref_name = Some ''main'', localRef = Some ''b2'', privateRef = Some ''a1'',
            ref_status = Ahead, aheadCount = Some (Num 1), behindCount = None\<rparr>], [])"
proof -
  let ?nd = "scripted git3 (\<lambda>p. True)"
  let ?r = "\<lparr>ref_name = Some ''main'', localRef = Some ''b2'', privateRef = Some ''a1'',
            ref_status = Ahead, aheadCount = Some (Num 1), behindCount = None\<rparr>"
  have run: "fst (compareRefs ?nd ''/r'' [(''heads/main'', ''b2'')] [(''heads/main'', ''a1'')] start)
               = ([?r], [])"
    using run1[of "\<lambda>p. True"] by (simp add: local1_def private1_def)
  have run': "fst (compareRefs ?nd ''/r'' [(''heads/main'', ''b2'')] [(''heads/main'', ''a1'')] start)
               = pushTarget ''heads/main'' ?r ([], [])"
    unfolding run by (simp add: pushTarget_def refType_def)
  have pure: "queries_pure ?nd ''/r'' (sys start) {''b2'', ''a1''}"
    by (rule scripted_pure)
  have tr: "ancestry_truthful ?nd ''/r'' (sys start) history3 {''b2'', ''a1''}"
    using git3_truthful2[of "\<lambda>p. True" "''/r''" "sys start"] by (simp add: insert_commute)
  from swap_ahead_gives_behind[OF pure tr acyclic_history3 _ run', of "Num 1"]
  show ?thesis using run by simp
qed

subsection \<open>Ancestry queries that fail\<close>

text \<open>
  Claim C3, as the code has it. \<^const>\<open>isAncestor\<close> reads every thrown outcome of the ancestry
  query as the answer no, whatever the exit status. When both queries of a reference with
  differing commits fail, the loop of \<^const>\<open>compareRefs\<close> pushes a record with the status
  diverged and goes on to the next reference: it runs no further command for the
  reference and reports no failure.
\<close>

theorem failed_queries_read_as_no:
  assumes priv: "map_of privateRefs refName = Some privateSha" "privateSha \<noteq> []"
    and differ: "localSha \<noteq> privateSha"
    and q1: "execSync nd (''git merge-base --is-ancestor '' @ localSha @ '' '' @ privateSha)
               (Some repoPath) True (sys w) = (Threw st1 e1 m1, s1)"
    and q2: "execSync nd (''git merge-base --is-ancestor '' @ privateSha @ '' '' @ localSha)
               (Some repoPath) True s1 = (Threw st2 e2 m2, s2)"
  shows "fst (isAncestor nd repoPath localSha privateSha w) = False
       \<and> checkLocalRefs nd repoPath privateRefs ((refName, localSha) # rest) acc w
           = checkLocalRefs nd repoPath privateRefs rest
               (pushTarget refName
                  \<lparr>ref_name = shortName refName, localRef = Some localSha,
                   privateRef = Some privateSha, ref_status = Diverged,
                   aheadCount = None, behindCount = None\<rparr> acc)
               \<lparr>sys = s2,
                ran = ran w
                  @ [(''git merge-base --is-ancestor '' @ localSha @ '' '' @ privateSha,
                      Some repoPath),
                     (''git merge-base --is-ancestor '' @ privateSha @ '' '' @ localSha,
                      Some repoPath)]\<rparr>"
  using assms by (simp add: isAncestor_def exec_def orNull_def)

theorem failed_queries_read_as_no_witness:
  "fst (isAncestor (scripted gitBroken (\<lambda>p. True)) ''/r'' ''b2'' ''a1'' start) = False
   \<and> checkLocalRefs (scripted gitBroken (\<lambda>p. True)) ''/r'' private1
        [(''heads/main'', ''b2'')] ([], []) start
       = (([\<lparr>ref_name = Some ''main'', localRef = Some ''b2'', privateRef = Some ''a1'',
             ref_status = Diverged, aheadCount = None, behindCount = None\<rparr>], []),
          \<lparr>sys = (),
           ran = [(''git merge-base --is-ancestor b2 a1'', Some ''/r''),
                  (''git merge-base --is-ancestor a1 b2'', Some ''/r'')]\<rparr>)"
proof -
  let ?nd = "scripted gitBroken (\<lambda>p. True)"
  have p: "map_of private1 ''heads/main'' = Some ''a1''" "''a1'' \<noteq> []" "''b2'' \<noteq> ''a1''"
    by (simp_all add: private1_def)
  have q1: "execSync ?nd (''git merge-base --is-ancestor '' @ ''b2'' @ '' '' @ ''a1'')
              (Some ''/r'') True (sys start)
            = (Threw (Some 128) (Some ''fatal: Not a valid commit name'') ''Command failed'', ())"
    and q2: "execSync ?nd (''git merge-base --is-ancestor '' @ ''a1'' @ '' '' @ ''b2'')
              (Some ''/r'') True ()
            = (Threw (Some 128) (Some ''fatal: Not a valid commit name'') ''Command failed'', ())"
    by (simp_all add: scripted_def gitBroken_def)
  from failed_queries_read_as_no[OF p q1 q2, of "[]" "([], [])"]
  show ?thesis by (simp add: pushTarget_def refType_def shortName_def at_index_def start_def)
qed

text \<open>
  The claim as stated fails: with a git whose ancestry queries exit with status 128, the
  comparison of one branch with differing commits yields a diverged record, the same
  result as with a git that answers no (status 1) to both queries.
\<close>

theorem failed_queries_diverged_counterexample:
  "fst (compareRefs (scripted gitBroken (\<lambda>p. True)) ''/r'' local1 private1 start)
     = ([\<lparr>ref_name = Some ''main'', localRef = Some ''b2'', privateRef = Some ''a1'',
          ref_status = Diverged, aheadCount = None, behindCount = None\<rparr>], [])
   \<and> fst (compareRefs (scripted gitBroken (\<lambda>p. True)) ''/r'' local1 private1 start)
     = fst (compareRefs (scripted gitNo (\<lambda>p. True)) ''/r'' local1 private1 start)"
  by (simp add: compareRefs_def local1_def private1_def start_def orNull_def
      isAncestor_def exec_def scripted_def gitBroken_def gitNo_def pushTarget_def
      refType_def shortName_def at_index_def)

subsection \<open>The commands of a run\<close>

lemma ranWith_exec:
  "ranWith P (snd (exec nd c cwd sl w)) = ranWith P w @ (if P c then [(c, cwd)] else [])"
  by (simp add: exec_def ranWith_def split: prod.splits)

lemma ranWith_sys [simp]: "ranWith P (w\<lparr>sys := x\<rparr>) = ranWith P w"
  by (simp add: ranWith_def)



lemma repoExists_pushes:
  "ranWith isMirrorPush (snd (repoExists nd p w)) = ranWith isMirrorPush w"
  by (simp add: repoExists_def case_prod_beta ranWith_exec isMirrorPush_def isComparison_def startsWith_def)


lemma fetchRemote_pushes:
  "ranWith isMirrorPush (snd (fetchRemote nd p r w)) = ranWith isMirrorPush w"
  by (simp add: fetchRemote_def ranWith_exec isMirrorPush_def isComparison_def startsWith_def)

lemma isAncestor_pushes:
  "ranWith isMirrorPush (snd (isAncestor nd p a d w)) = ranWith isMirrorPush w"
  by (simp add: isAncestor_def case_prod_beta ranWith_exec isMirrorPush_def isComparison_def startsWith_def)

lemma getCommitCount_pushes:
  "ranWith isMirrorPush (snd (getCommitCount nd p a d w)) = ranWith isMirrorPush w"
  by (simp add: getCommitCount_def case_prod_beta ranWith_exec isMirrorPush_def isComparison_def startsWith_def)

lemma checkLocalRefs_pushes:
  "ranWith isMirrorPush (snd (checkLocalRefs nd p R L acc w)) = ranWith isMirrorPush w"
proof (induction L arbitrary: acc w)
  case Nil
  then show ?case by simp
next
  case (Cons e L)
  obtain n l where e: "e = (n, l)" by (cases e)
  show ?case
  proof (cases "orNull (map_of R n)")
    case None
    then show ?thesis unfolding e by (simp add: Cons.IH)
  next
    case (Some ps)
    show ?thesis
    proof (cases "l = ps")
      case True
      then show ?thesis unfolding e using Some by (simp add: Cons.IH)
    next
      case False
      obtain la w1 where a1: "isAncestor nd p l ps w = (la, w1)" by (cases "isAncestor nd p l ps w")
      obtain pa w2 where a2: "isAncestor nd p ps l w1 = (pa, w2)" by (cases "isAncestor nd p ps l w1")
      obtain c3 w3 where a3: "getCommitCount nd p ps l w2 = (c3, w3)"
        by (cases "getCommitCount nd p ps l w2")
      obtain c4 w4 where a4: "getCommitCount nd p l ps w2 = (c4, w4)"
        by (cases "getCommitCount nd p l ps w2")
      have r1: "ranWith isMirrorPush w1 = ranWith isMirrorPush w"
        using isAncestor_pushes[of nd p l ps w] a1 by simp
      have r2: "ranWith isMirrorPush w2 = ranWith isMirrorPush w"
        using isAncestor_pushes[of nd p ps l w1] a2 r1 by simp
      have r3: "ranWith isMirrorPush w3 = ranWith isMirrorPush w"
        using getCommitCount_pushes[of nd p ps l w2] a3 r2 by simp
      have r4: "ranWith isMirrorPush w4 = ranWith isMirrorPush w"
        using getCommitCount_pushes[of nd p l ps w2] a4 r2 by simp
      show ?thesis unfolding e using Some False a1 a2 a3 a4 r2 r3 r4
        by (simp add: Cons.IH)
    qed
  qed
qed

lemma compareRefs_pushes:
  "ranWith isMirrorPush (snd (compareRefs nd p L R w)) = ranWith isMirrorPush w"
  by (simp add: compareRefs_def case_prod_beta checkLocalRefs_pushes)

lemma getLocalRefs_pushes:
  "ranWith isMirrorPush (snd (getLocalRefs nd p w)) = ranWith isMirrorPush w"
  by (simp add: getLocalRefs_def case_prod_beta ranWith_exec isMirrorPush_def startsWith_def)

lemma getRemoteRefs_pushes:
  "ranWith isMirrorPush (snd (getRemoteRefs nd p r w)) = ranWith isMirrorPush w"
  by (simp add: getRemoteRefs_def case_prod_beta ranWith_exec isMirrorPush_def startsWith_def)

lemma status_pushes:
  "ranWith isMirrorPush (snd (status nd repo w)) = ranWith isMirrorPush w"
  by (simp add: status_def Let_def case_prod_beta repoExists_pushes fetchRemote_pushes
      getLocalRefs_pushes getRemoteRefs_pushes compareRefs_pushes)











lemma pushMirror_pushes:
  "ranWith isMirrorPush (snd (pushMirror nd p r w))
     = ranWith isMirrorPush w @ [(''git push --mirror '' @ r, Some p)]"
  by (simp add: pushMirror_def ranWith_exec isMirrorPush_def isComparison_def startsWith_def)





text \<open>An exception of \<^const>\<open>addSourceNotice\<close> can only come from a file-system call.\<close>

lemma fsReturns_read: "fsReturns nd \<Longrightarrow> \<not> isl (readFileSync nd path s)"
  by (metis fsReturns_def sum.disc(2))

lemma writeNotice_returns:
  assumes "fsReturns nd"
  shows "\<not> isl (fst (writeNotice nd u t w))"
proof -
  have wr: "\<And>path content s. fst (writeFileSync nd path content s) = None"
    using assms by (simp add: fsReturns_def)
  show ?thesis
    by (simp add: writeNotice_def Let_def case_prod_beta sum.case_eq_if wr
        fsReturns_read[OF assms])
qed

lemma noticeSteps_returns:
  assumes "fsReturns nd"
  shows "\<not> isl (fst (noticeSteps nd p u b t w))"
proof -
  have mk: "\<And>path s. fst (mkdirSync nd path s) = None"
    using assms by (simp add: fsReturns_def)
  show ?thesis
    by (simp add: noticeSteps_def case_prod_beta sum.case_eq_if mk
        writeNotice_returns[OF assms])
qed

lemma addSourceNotice_returns:
  assumes "fsReturns nd"
  shows "\<exists>r. fst (addSourceNotice nd p u b w) = Inr r"
proof -
  have rm: "\<And>path s. fst (rmSync nd path s) = None"
    using assms by (simp add: fsReturns_def)
  have "\<not> isl (fst (addSourceNotice nd p u b w))"
    by (simp add: addSourceNotice_def Let_def case_prod_beta rm noticeSteps_returns[OF assms])
  then show ?thesis by (cases "fst (addSourceNotice nd p u b w)") auto
qed

subsection \<open>The two results of status and the stages of push\<close>

lemma status_not_pulled:
  assumes "repoExists nd (getRepoTempPath nd (repo_name repo)) w = (False, w1)"
  shows "status nd repo w = (notPulled repo, w1)"
  using assms by (simp add: status_def Let_def notPulled_def)

lemma status_pulled:
  assumes ex: "repoExists nd (getRepoTempPath nd (repo_name repo)) w = (True, w1)"
    and st: "status nd repo w = (sr, w')"
  shows "pulled (sr_status sr)
       \<and> canPush sr = (\<not> list_ex (\<lambda>r. ref_status r = Behind) (records sr)
                       \<and> \<not> list_ex (\<lambda>r. ref_status r = Diverged) (records sr))
       \<and> hasChanges sr = list_ex (\<lambda>r. ref_status r = Ahead \<or> ref_status r = New
                                        \<or> ref_status r = Missing) (records sr)
       \<and> errors sr = (if list_ex (\<lambda>r. ref_status r = Behind) (records sr)
                       then [behindReason] else [])
                      @ (if list_ex (\<lambda>r. ref_status r = Diverged) (records sr)
                         then [divergedReason] else [])"
proof -
  let ?p = "getRepoTempPath nd (repo_name repo)"
  obtain fr w2 where f: "fetchRemote nd ?p ''private'' w1 = (fr, w2)"
    by (cases "fetchRemote nd ?p ''private'' w1")
  obtain L w3 where l: "getLocalRefs nd ?p w2 = (L, w3)"
    by (cases "getLocalRefs nd ?p w2")
  obtain R w4 where r: "getRemoteRefs nd ?p ''private'' w3 = (R, w4)"
    by (cases "getRemoteRefs nd ?p ''private'' w3")
  obtain bs ts w5 where c: "compareRefs nd ?p L R w4 = ((bs, ts), w5)"
    by (metis prod.collapse)
  have "sr = fst (status nd repo w)" using st by simp
  then show ?thesis
    by (simp add: status_def Let_def ex f l r c records_def behindReason_def
        divergedReason_def)
qed

lemma status_cases:
  assumes "status nd repo w = (sr, w')"
  shows "(sr = notPulled repo \<and> records sr = [])
       \<or> (pulled (sr_status sr)
           \<and> canPush sr = (\<not> list_ex (\<lambda>r. ref_status r = Behind) (records sr)
                           \<and> \<not> list_ex (\<lambda>r. ref_status r = Diverged) (records sr))
           \<and> hasChanges sr = list_ex (\<lambda>r. ref_status r = Ahead \<or> ref_status r = New
                                            \<or> ref_status r = Missing) (records sr)
           \<and> errors sr = (if list_ex (\<lambda>r. ref_status r = Behind) (records sr)
                           then [behindReason] else [])
                          @ (if list_ex (\<lambda>r. ref_status r = Diverged) (records sr)
                             then [divergedReason] else []))"
proof -
  obtain ex w1 where e: "repoExists nd (getRepoTempPath nd (repo_name repo)) w = (ex, w1)"
    by (cases "repoExists nd (getRepoTempPath nd (repo_name repo)) w")
  show ?thesis
  proof (cases ex)
    case True
    then have "repoExists nd (getRepoTempPath nd (repo_name repo)) w = (True, w1)"
      using e by simp
    from status_pulled[OF this assms] show ?thesis by (rule disjI2)
  next
    case False
    then have "sr = notPulled repo" using status_not_pulled[of nd repo w w1] e assms by simp
    then show ?thesis by (simp add: notPulled_def records_def)
  qed
qed

lemma reasons_differ:
  "behindReason \<noteq> divergedReason" "''Not pulled yet'' \<noteq> behindReason"
  "''Not pulled yet'' \<noteq> divergedReason"
  by (simp_all add: behindReason_def divergedReason_def)




subsection \<open>The sample repositories evaluated\<close>

lemma path_scripted:
  "getRepoTempPath (scripted a p) ''lib'' = ''/home/u/.repo-sync/repos/lib.git''"
  by (simp add: getRepoTempPath_def getTempDir_def scripted_def)

lemma repoExists_mirror:
  "fst (repoExists (scripted (gitMirror x) (\<lambda>p. True)) path w) = True"
  by (simp add: repoExists_def exec_def scripted_def gitMirror_def)


lemma cloneTime_scripted:
  "getRepoCloneTime (scripted a (\<lambda>p. True)) path w = Some 0"
  by (simp add: getRepoCloneTime_def scripted_def)

lemma split_on_nonempty: "split_on c s \<noteq> []"
  by (induction s) auto

lemma split_on_step:
  "split_on c (x # xs)
     = (case split_on c xs of
          [] \<Rightarrow> []
        | p # ps \<Rightarrow> if x = c then [] # p # ps else (x # p) # ps)"
  using split_on_nonempty[of c xs] by (cases "split_on c xs") auto

lemma getLocalRefs_mirror:
  assumes "\<not> returned (x ''git for-each-ref --format='%(refname:short) %(objectname)' refs/tags/'')"
  shows "fst (getLocalRefs (scripted (gitMirror x) present) path w) = local1"
  using assms
  by (simp add: getLocalRefs_def exec_def scripted_def gitMirror_def local1_def returned_def
      trim_def isSpace_def at_index_def split: proc.splits)

lemma getRemoteRefs_mirror:
  assumes "\<not> returned (x ''git ls-remote --tags private'')"
  shows "fst (getRemoteRefs (scripted (gitMirror x) present) path ''private'' w) = private1"
  using assms
  by (simp add: getRemoteRefs_def exec_def scripted_def gitMirror_def private1_def returned_def
      trim_def isSpace_def matchRemoteHead_def startsWith_def isHex_def isDigit_def
      isLineTerminator_def Let_def split_on_step del: split_on.simps(2) split: proc.splits)

lemma compareRefs_mirror_ahead:
  "fst (compareRefs (scripted (gitMirror git3) present) path local1 private1 w)
     = ([\<lparr>ref_name = Some ''main'', localRef = Some ''b2'', privateRef = Some ''a1'',
          ref_status = Ahead, aheadCount = Some (Num 1), behindCount = None\<rparr>], [])"
  by (simp add: compareRefs_def local1_def private1_def orNull_def
      isAncestor_def getCommitCount_def exec_def scripted_def gitMirror_def git3_def
      pushTarget_def refType_def shortName_def at_index_def trim_def isSpace_def
      parseInt10_def isDigit_def digitsValue_def digitVal_def Let_def split_on_step
      nearestDouble_small del: split_on.simps(2))

lemma compareRefs_mirror_diverged:
  "fst (compareRefs (scripted (gitMirror gitNo) present) path local1 private1 w)
     = ([\<lparr>ref_name = Some ''main'', localRef = Some ''b2'', privateRef = Some ''a1'',
          ref_status = Diverged, aheadCount = None, behindCount = None\<rparr>], [])"
  by (simp add: compareRefs_def local1_def private1_def orNull_def
      isAncestor_def exec_def scripted_def gitMirror_def gitNo_def
      pushTarget_def refType_def shortName_def at_index_def split_on_step
      del: split_on.simps(2))

lemma status_mirror_ahead:
  "fst (status (scripted (gitMirror git3) (\<lambda>p. True)) repoPlain w)
     = \<lparr>sr_status =
          \<lparr>rs_name = ''lib'', publicUrl = ''https://example.org/lib.git'',
           privateUrl = ''git@mirror:lib.git'', pulled = True, pulledAt = Some 0,
           branches = [\<lparr>ref_name = Some ''main'', localRef = Some ''b2'',
                         privateRef = Some ''a1'', ref_status = Ahead,
                         aheadCount = Some (Num 1), behindCount = None\<rparr>],
           tags = [], rs_error = None\<rparr>,
        canPush = True, hasChanges = True, errors = []\<rparr>"
proof -
  have t: "\<not> returned (git3 ''git for-each-ref --format='%(refname:short) %(objectname)' refs/tags/'')"
    "\<not> returned (git3 ''git ls-remote --tags private'')"
    by (simp_all add: git3_def returned_def)
  show ?thesis
    by (simp add: status_def Let_def case_prod_beta repoExists_mirror cloneTime_scripted
        getLocalRefs_mirror[of git3, OF t(1)] getRemoteRefs_mirror[of git3, OF t(2)]
        compareRefs_mirror_ahead
        repoPlain_def)
qed

lemma status_mirror_diverged:
  "fst (status (scripted (gitMirror gitNo) (\<lambda>p. True)) repoPlain w)
     = \<lparr>sr_status =
          \<lparr>rs_name = ''lib'', publicUrl = ''https://example.org/lib.git'',
           privateUrl = ''git@mirror:lib.git'', pulled = True, pulledAt = Some 0,
           branches = [\<lparr>ref_name = Some ''main'', localRef = Some ''b2'',
                         privateRef = Some ''a1'', ref_status = Diverged,
                         aheadCount = None, behindCount = None\<rparr>],
           tags = [], rs_error = None\<rparr>,
        canPush = False, hasChanges = False, errors = [divergedReason]\<rparr>"
proof -
  have t: "\<not> returned (gitNo ''git for-each-ref --format='%(refname:short) %(objectname)' refs/tags/'')"
    "\<not> returned (gitNo ''git ls-remote --tags private'')"
    by (simp_all add: gitNo_def returned_def)
  show ?thesis
    by (simp add: status_def Let_def case_prod_beta repoExists_mirror cloneTime_scripted
        getLocalRefs_mirror[of gitNo, OF t(1)] getRemoteRefs_mirror[of gitNo, OF t(2)]
        compareRefs_mirror_diverged
        repoPlain_def divergedReason_def)
qed

lemma status_absent:
  "status (scripted a (\<lambda>p. False)) repo w = (notPulled repo, w)"
  by (simp add: status_def Let_def repoExists_def scripted_def notPulled_def)

lemma pushMirror_mirror:
  "success (fst (pushMirror (scripted (gitMirror x) present) path ''private'' w))"
  by (simp add: pushMirror_def exec_def scripted_def gitMirror_def)




subsection \<open>The verdict of status\<close>

text \<open>
  Claim C2, as the code has it. For the result of \<^const>\<open>status\<close> on a pulled mirror,
  \<open>canPush\<close> is false exactly when some record, branch or tag, has the status behind or
  diverged; records that are same, ahead, new or missing never make it false. For a
  mirror that is not pulled, \<open>canPush\<close> is false and there are no records.
\<close>

theorem status_canPush:
  assumes "status nd repo w = (sr, w')"
  shows "(pulled (sr_status sr) \<longrightarrow>
            (\<not> canPush sr) = (\<exists>r \<in> set (records sr). ref_status r = Behind
                                                    \<or> ref_status r = Diverged))
       \<and> (\<not> pulled (sr_status sr) \<longrightarrow> \<not> canPush sr \<and> records sr = [])"
  using status_cases[OF assms]
  by (auto simp add: list_ex_iff notPulled_def)

theorem status_canPush_witness:
  "pulled (sr_status (fst (status (scripted (gitMirror gitNo) (\<lambda>p. True)) repoPlain start)))
   \<and> \<not> canPush (fst (status (scripted (gitMirror gitNo) (\<lambda>p. True)) repoPlain start))
   \<and> (\<exists>r \<in> set (records (fst (status (scripted (gitMirror gitNo) (\<lambda>p. True))
                                      repoPlain start))).
          ref_status r = Behind \<or> ref_status r = Diverged)"
proof -
  let ?nd = "scripted (gitMirror gitNo) (\<lambda>p. True)"
  obtain sr w' where st: "status ?nd repoPlain start = (sr, w')"
    by (cases "status ?nd repoPlain start")
  have sr: "sr = fst (status ?nd repoPlain start)" using st by simp
  have p: "pulled (sr_status sr)" and c: "\<not> canPush sr"
    unfolding sr by (simp_all add: status_mirror_diverged)
  from status_canPush[OF st] p c
  have "\<exists>r \<in> set (records sr). ref_status r = Behind \<or> ref_status r = Diverged" by simp
  then show ?thesis using p c unfolding sr by simp
qed

text \<open>
  The claim as stated, for every result of \<^const>\<open>status\<close>, fails where nothing was pulled:
  \<open>canPush\<close> is false and no record is behind or diverged.
\<close>

theorem status_canPush_counterexample:
  "\<not> ((\<not> canPush (fst (status (scripted gitBroken (\<lambda>p. False)) repoPlain start)))
        = (\<exists>r \<in> set (records (fst (status (scripted gitBroken (\<lambda>p. False))
                                         repoPlain start))).
             ref_status r = Behind \<or> ref_status r = Diverged))"
  by (simp add: status_absent notPulled_def records_def)

text \<open>
  Claim C4. For every result of \<^const>\<open>status\<close>, \<open>hasChanges\<close> is true exactly when some
  record, branch or tag, has the status ahead, new or missing; when every record is same,
  \<open>hasChanges\<close> is false.
\<close>

theorem status_hasChanges:
  assumes "status nd repo w = (sr, w')"
  shows "hasChanges sr = (\<exists>r \<in> set (records sr). ref_status r = Ahead \<or> ref_status r = New
                                              \<or> ref_status r = Missing)
       \<and> ((\<forall>r \<in> set (records sr). ref_status r = Same) \<longrightarrow> \<not> hasChanges sr)"
  using status_cases[OF assms]
  by (auto simp add: list_ex_iff notPulled_def)

theorem status_hasChanges_witness:
  "hasChanges (fst (status (scripted (gitMirror git3) (\<lambda>p. True)) repoPlain start))
     = (\<exists>r \<in> set (records (fst (status (scripted (gitMirror git3) (\<lambda>p. True))
                                      repoPlain start))).
          ref_status r = Ahead \<or> ref_status r = New \<or> ref_status r = Missing)
   \<and> hasChanges (fst (status (scripted (gitMirror git3) (\<lambda>p. True)) repoPlain start))"
proof -
  let ?nd = "scripted (gitMirror git3) (\<lambda>p. True)"
  obtain sr w' where st: "status ?nd repoPlain start = (sr, w')"
    by (cases "status ?nd repoPlain start")
  from status_hasChanges[OF st] st status_mirror_ahead[of start]
  show ?thesis by simp
qed

text \<open>
  Claim C8. For every result of \<^const>\<open>status\<close>, the list of blocking reasons holds the
  reason for behind once when some record is behind and not otherwise, the reason for
  divergence once when some record is diverged and not otherwise, and nothing but these
  two and the reason of a mirror not pulled. When some record is diverged and all others
  are same, \<open>canPush\<close> is false and the list is the one reason for divergence.
\<close>

theorem status_blocking_reasons:
  assumes "status nd repo w = (sr, w')"
  shows "count_list (errors sr) behindReason
           = (if \<exists>r \<in> set (records sr). ref_status r = Behind then 1 else 0)
       \<and> count_list (errors sr) divergedReason
           = (if \<exists>r \<in> set (records sr). ref_status r = Diverged then 1 else 0)
       \<and> set (errors sr) \<subseteq> {behindReason, divergedReason, ''Not pulled yet''}
       \<and> ((\<exists>r \<in> set (records sr). ref_status r = Diverged)
            \<and> (\<forall>r \<in> set (records sr). ref_status r = Diverged \<or> ref_status r = Same)
          \<longrightarrow> \<not> canPush sr \<and> errors sr = [divergedReason])"
proof -
  from status_cases[OF assms] show ?thesis
  proof
    assume "sr = notPulled repo \<and> records sr = []"
    then have e: "errors sr = [''Not pulled yet'']" and r: "records sr = []"
      by (simp_all add: notPulled_def records_def)
    show ?thesis using reasons_differ by (simp add: e r)
  next
    assume p: "pulled (sr_status sr)
       \<and> canPush sr = (\<not> list_ex (\<lambda>r. ref_status r = Behind) (records sr)
                       \<and> \<not> list_ex (\<lambda>r. ref_status r = Diverged) (records sr))
       \<and> hasChanges sr = list_ex (\<lambda>r. ref_status r = Ahead \<or> ref_status r = New
                                        \<or> ref_status r = Missing) (records sr)
       \<and> errors sr = (if list_ex (\<lambda>r. ref_status r = Behind) (records sr)
                       then [behindReason] else [])
                      @ (if list_ex (\<lambda>r. ref_status r = Diverged) (records sr)
                         then [divergedReason] else [])"
    then have e: "errors sr = (if \<exists>r \<in> set (records sr). ref_status r = Behind
                                then [behindReason] else [])
                               @ (if \<exists>r \<in> set (records sr). ref_status r = Diverged
                                  then [divergedReason] else [])"
      and c: "canPush sr = (\<not> (\<exists>r \<in> set (records sr). ref_status r = Behind)
                            \<and> \<not> (\<exists>r \<in> set (records sr). ref_status r = Diverged))"
      by (simp_all add: list_ex_iff)
    have 1: "count_list (errors sr) behindReason
               = (if \<exists>r \<in> set (records sr). ref_status r = Behind then 1 else 0)"
      and 2: "count_list (errors sr) divergedReason
               = (if \<exists>r \<in> set (records sr). ref_status r = Diverged then 1 else 0)"
      and 3: "set (errors sr) \<subseteq> {behindReason, divergedReason, ''Not pulled yet''}"
      using reasons_differ by (auto simp add: e)
    have 4: "\<not> canPush sr \<and> errors sr = [divergedReason]"
      if d: "\<exists>r \<in> set (records sr). ref_status r = Diverged"
        and a: "\<forall>r \<in> set (records sr). ref_status r = Diverged \<or> ref_status r = Same"
    proof -
      have "\<not> (\<exists>r \<in> set (records sr). ref_status r = Behind)" using a by fastforce
      then show ?thesis using d by (simp add: e c)
    qed
    show ?thesis using 1 2 3 4 by blast
  qed
qed

theorem status_blocking_reasons_witness:
  "count_list (errors (fst (status (scripted (gitMirror gitNo) (\<lambda>p. True)) repoPlain start)))
     divergedReason = 1
   \<and> \<not> canPush (fst (status (scripted (gitMirror gitNo) (\<lambda>p. True)) repoPlain start))
   \<and> errors (fst (status (scripted (gitMirror gitNo) (\<lambda>p. True)) repoPlain start))
       = [divergedReason]"
proof -
  let ?nd = "scripted (gitMirror gitNo) (\<lambda>p. True)"
  obtain sr w' where st: "status ?nd repoPlain start = (sr, w')"
    by (cases "status ?nd repoPlain start")
  have sr: "sr = fst (status ?nd repoPlain start)" using st by simp
  have d: "\<exists>r \<in> set (records sr). ref_status r = Diverged"
    and a: "\<forall>r \<in> set (records sr). ref_status r = Diverged \<or> ref_status r = Same"
    unfolding sr by (simp_all add: status_mirror_diverged records_def)
  from status_blocking_reasons[OF st] d a
  have "count_list (errors sr) divergedReason = 1 \<and> \<not> canPush sr
        \<and> errors sr = [divergedReason]" by simp
  then show ?thesis unfolding sr .
qed

subsection \<open>The gate of push\<close>

text \<open>
  Claim C10. When the cached mirror does not exist (\<^const>\<open>repoExists\<close> answers no),
  \<^const>\<open>status\<close> returns the result \<^const>\<open>notPulled\<close>: \<open>pulled\<close> false, no branches and no
  tags, \<open>canPush\<close> and \<open>hasChanges\<close> false and the one error \<^verbatim>\<open>Not pulled yet\<close>;
  \<^const>\<open>push\<close> fails with an error, and no mirror push has been run.
\<close>

theorem not_pulled_status_and_push:
  assumes "repoExists nd (getRepoTempPath nd (repo_name repo)) w = (False, w1)"
  shows "status nd repo w = (notPulled repo, w1)
       \<and> push nd repo w
           = (Inr \<lparr>pr_success = False, pushed = False,
                   pr_error = Some ''Not pulled yet. Run 'repo-sync pull' first.''\<rparr>, w1)
       \<and> ranWith isMirrorPush w1 = ranWith isMirrorPush w"
proof -
  have "ranWith isMirrorPush w1 = ranWith isMirrorPush w"
    using repoExists_pushes[of nd "getRepoTempPath nd (repo_name repo)" w] assms by simp
  then show ?thesis using assms status_not_pulled[OF assms]
    by (simp add: push_def Let_def)
qed

theorem not_pulled_status_and_push_witness:
  "status (scripted gitBroken (\<lambda>p. False)) repoPlain start = (notPulled repoPlain, start)
   \<and> push (scripted gitBroken (\<lambda>p. False)) repoPlain start
       = (Inr \<lparr>pr_success = False, pushed = False,
               pr_error = Some ''Not pulled yet. Run 'repo-sync pull' first.''\<rparr>, start)
   \<and> ranWith isMirrorPush start = []"
proof -
  let ?nd = "scripted gitBroken (\<lambda>p. False)"
  have "repoExists ?nd (getRepoTempPath ?nd (repo_name repoPlain)) start = (False, start)"
    by (simp add: repoExists_def scripted_def)
  from not_pulled_status_and_push[OF this]
  show ?thesis by (simp add: ranWith_def start_def)
qed

text \<open>
  Claim C6. For a repository without \<open>markSource\<close> whose mirror exists, with \<open>sr\<close> the result
  of \<^const>\<open>status\<close>: when \<open>canPush\<close> is false, \<^const>\<open>push\<close> fails and reports the blocking
  reasons joined; when \<open>canPush\<close> is true and \<open>hasChanges\<close> is false, it succeeds with
  \<open>pushed\<close> false; in both cases no mirror push is run. When both are true it runs the
  mirror push, once, and returns its outcome.
\<close>

theorem push_gate:
  assumes nm: "markSource repo \<noteq> Some True"
    and ex: "repoExists nd (getRepoTempPath nd (repo_name repo)) w = (True, w1)"
    and st: "status nd repo w1 = (sr, w2)"
  shows "(\<not> canPush sr \<longrightarrow>
            push nd repo w = (Inr \<lparr>pr_success = False, pushed = False,
                                   pr_error = Some (joinWith ''; '' (errors sr))\<rparr>, w2))
       \<and> (canPush sr \<and> \<not> hasChanges sr \<longrightarrow>
            push nd repo w
              = (Inr \<lparr>pr_success = True, pushed = False, pr_error = None\<rparr>, w2))
       \<and> (canPush sr \<and> hasChanges sr \<longrightarrow>
            push nd repo w
              = (Inr (if success (fst (pushMirror nd (getRepoTempPath nd (repo_name repo))
                                         ''private'' w2))
                      then \<lparr>pr_success = True, pushed = True, pr_error = None\<rparr>
                      else \<lparr>pr_success = False, pushed = False,
                            pr_error = Some (''Failed to push: ''
                              @ templ (error (fst (pushMirror nd
                                   (getRepoTempPath nd (repo_name repo)) ''private'' w2))))\<rparr>),
                 snd (pushMirror nd (getRepoTempPath nd (repo_name repo)) ''private'' w2))
            \<and> ranWith isMirrorPush (snd (push nd repo w))
                = ranWith isMirrorPush w
                    @ [(''git push --mirror private'',
                        Some (getRepoTempPath nd (repo_name repo)))])
       \<and> (\<not> (canPush sr \<and> hasChanges sr) \<longrightarrow>
            ranWith isMirrorPush (snd (push nd repo w)) = ranWith isMirrorPush w)"
proof -
  let ?p = "getRepoTempPath nd (repo_name repo)"
  have r1: "ranWith isMirrorPush w1 = ranWith isMirrorPush w"
    using repoExists_pushes[of nd ?p w] ex by simp
  have r2: "ranWith isMirrorPush w2 = ranWith isMirrorPush w"
    using status_pushes[of nd repo w1] st r1 by simp
  have r3: "ranWith isMirrorPush (snd (pushMirror nd ?p ''private'' w2))
              = ranWith isMirrorPush w @ [(''git push --mirror private'', Some ?p)]"
    using pushMirror_pushes[of nd ?p "''private''" w2] r2 by simp
  show ?thesis using nm ex st r2 r3
    by (simp add: push_def Let_def case_prod_beta)
qed

theorem push_gate_witness:
  "fst (push (scripted (gitMirror git3) (\<lambda>p. True)) repoPlain start)
     = Inr \<lparr>pr_success = True, pushed = True, pr_error = None\<rparr>
   \<and> ranWith isMirrorPush (snd (push (scripted (gitMirror git3) (\<lambda>p. True)) repoPlain start))
       = [(''git push --mirror private'', Some ''/home/u/.repo-sync/repos/lib.git'')]
   \<and> fst (push (scripted (gitMirror gitNo) (\<lambda>p. True)) repoPlain start)
       = Inr \<lparr>pr_success = False, pushed = False, pr_error = Some divergedReason\<rparr>
   \<and> ranWith isMirrorPush (snd (push (scripted (gitMirror gitNo) (\<lambda>p. True)) repoPlain start))
       = []"
proof -
  have nm: "markSource repoPlain \<noteq> Some True" by (simp add: repoPlain_def)
  have nil: "ranWith isMirrorPush start = []" by (simp add: ranWith_def start_def)
  have path: "\<And>a p. getRepoTempPath (scripted a p) (repo_name repoPlain)
                 = ''/home/u/.repo-sync/repos/lib.git''"
    by (simp add: repoPlain_def path_scripted)
  have a: "fst (push (scripted (gitMirror git3) (\<lambda>p. True)) repoPlain start)
             = Inr \<lparr>pr_success = True, pushed = True, pr_error = None\<rparr>
           \<and> ranWith isMirrorPush (snd (push (scripted (gitMirror git3) (\<lambda>p. True))
                                          repoPlain start))
             = [(''git push --mirror private'', Some ''/home/u/.repo-sync/repos/lib.git'')]"
  proof -
    let ?nd = "scripted (gitMirror git3) (\<lambda>p. True)"
    obtain w1 where ex: "repoExists ?nd (getRepoTempPath ?nd (repo_name repoPlain)) start
                           = (True, w1)"
      using repoExists_mirror[of git3 "getRepoTempPath ?nd (repo_name repoPlain)" start]
      by (metis prod.collapse)
    obtain sr w2 where st: "status ?nd repoPlain w1 = (sr, w2)"
      by (cases "status ?nd repoPlain w1")
    have sr: "canPush sr" "hasChanges sr"
      using status_mirror_ahead[of w1] st by simp_all
    let ?p = "getRepoTempPath ?nd (repo_name repoPlain)"
    from push_gate[OF nm ex st] sr
    have c: "push ?nd repoPlain start
               = (Inr (if success (fst (pushMirror ?nd ?p ''private'' w2))
                       then \<lparr>pr_success = True, pushed = True, pr_error = None\<rparr>
                       else \<lparr>pr_success = False, pushed = False,
                             pr_error = Some (''Failed to push: ''
                               @ templ (error (fst (pushMirror ?nd ?p ''private'' w2))))\<rparr>),
                  snd (pushMirror ?nd ?p ''private'' w2))"
      and t: "ranWith isMirrorPush (snd (push ?nd repoPlain start))
               = ranWith isMirrorPush start @ [(''git push --mirror private'', Some ?p)]"
      by blast+
    have "fst (push ?nd repoPlain start)
            = Inr \<lparr>pr_success = True, pushed = True, pr_error = None\<rparr>"
      unfolding c by (simp add: pushMirror_mirror)
    then show ?thesis unfolding t by (simp add: nil path)
  qed
  have b: "fst (push (scripted (gitMirror gitNo) (\<lambda>p. True)) repoPlain start)
             = Inr \<lparr>pr_success = False, pushed = False, pr_error = Some divergedReason\<rparr>
           \<and> ranWith isMirrorPush (snd (push (scripted (gitMirror gitNo) (\<lambda>p. True))
                                          repoPlain start)) = []"
  proof -
    let ?nd = "scripted (gitMirror gitNo) (\<lambda>p. True)"
    obtain w1 where ex: "repoExists ?nd (getRepoTempPath ?nd (repo_name repoPlain)) start
                           = (True, w1)"
      using repoExists_mirror[of gitNo "getRepoTempPath ?nd (repo_name repoPlain)" start]
      by (metis prod.collapse)
    obtain sr w2 where st: "status ?nd repoPlain w1 = (sr, w2)"
      by (cases "status ?nd repoPlain w1")
    have sr: "\<not> canPush sr" "errors sr = [divergedReason]"
      using status_mirror_diverged[of w1] st by simp_all
    from push_gate[OF nm ex st] sr
    have c: "push ?nd repoPlain start
               = (Inr \<lparr>pr_success = False, pushed = False,
                       pr_error = Some (joinWith ''; '' (errors sr))\<rparr>, w2)"
      and t: "ranWith isMirrorPush (snd (push ?nd repoPlain start)) = ranWith isMirrorPush start"
      by blast+
    have "fst (push ?nd repoPlain start)
            = Inr \<lparr>pr_success = False, pushed = False, pr_error = Some divergedReason\<rparr>"
      unfolding c by (simp add: sr)
    then show ?thesis unfolding t by (simp add: nil)
  qed
  show ?thesis using a b by simp
qed




end
